theory Spec2Isabelle
  imports Main "HOL-Library.Monad_Syntax"
begin

section \<open>Values of loaded documents\<close>

text \<open>
  A document produced by a backend is a tree of Python values. Mappings are
  \<^verbatim>\<open>LookupDict\<close> objects (an \<^verbatim>\<open>OrderedDict\<close>): an association list in insertion
  order whose keys are distinct. Keys are strings, which is what the dotted lookup
  can address. Floating-point numbers are left out of the model.
\<close>

datatype pyval =
    PNone
  | PBool bool
  | PInt int
  | PStr string
  | PList "pyval list"
  | PSet "pyval list"
  | PDict "(string \<times> pyval) list"

text \<open>
  The exceptions the engine can raise, by kind. \<open>GenericException\<close> is a plain
  \<^verbatim>\<open>Exception\<close>, \<open>ReError\<close> is \<^verbatim>\<open>re.error\<close>, \<open>LoadFailure\<close> is the exception
  \<^verbatim>\<open>load_file\<close> raises, with the path and the backend's exception in its message, and
  \<open>Unsupported\<close> marks a call that leaves the fragment of Python modelled here.
\<close>

datatype error =
    KeyError
  | IndexError
  | ValueError
  | TypeError
  | AttributeError
  | ReError
  | InterpolationError
  | GenericException
  | LoadFailure string error
  | Unsupported

type_synonym 'a result = "error + 'a"

text \<open>
  Python's \<^verbatim>\<open>==\<close> on these values: \<^verbatim>\<open>True == 1\<close> and \<^verbatim>\<open>False == 0\<close>, sequences
  compare element-wise, two ordered mappings compare as sequences of items, sets
  compare by mutual inclusion.
\<close>

primrec py_eq :: "pyval \<Rightarrow> pyval \<Rightarrow> bool" where
  "py_eq PNone b = (case b of PNone \<Rightarrow> True | _ \<Rightarrow> False)"
| "py_eq (PBool p) b =
     (case b of PBool q \<Rightarrow> p = q | PInt j \<Rightarrow> (if p then 1 else 0) = j | _ \<Rightarrow> False)"
| "py_eq (PInt i) b =
     (case b of PBool q \<Rightarrow> i = (if q then 1 else 0) | PInt j \<Rightarrow> i = j | _ \<Rightarrow> False)"
| "py_eq (PStr s) b = (case b of PStr t \<Rightarrow> s = t | _ \<Rightarrow> False)"
| "py_eq (PList xs) b =
     (case b of PList ys \<Rightarrow> list_all2 (\<lambda>f y. f y) (map py_eq xs) ys | _ \<Rightarrow> False)"
| "py_eq (PSet xs) b =
     (case b of
        PSet ys \<Rightarrow> list_all (\<lambda>f. list_ex f ys) (map py_eq xs)
                 \<and> list_all (\<lambda>y. list_ex (\<lambda>f. f y) (map py_eq xs)) ys
      | _ \<Rightarrow> False)"
| "py_eq (PDict d) b =
     (case b of
        PDict e \<Rightarrow> list_all2 (\<lambda>kf kw. fst kf = fst kw \<and> snd kf (snd kw))
                     (map (map_prod id py_eq) d) e
      | _ \<Rightarrow> False)"

text \<open>\<^verbatim>\<open>x in ys\<close> for a list \<^verbatim>\<open>ys\<close>: some element equals \<^verbatim>\<open>x\<close>.\<close>

definition py_in :: "pyval \<Rightarrow> pyval list \<Rightarrow> bool" where
  "py_in x ys = list_ex (\<lambda>y. py_eq y x) ys"

section \<open>Dotted lookup in a document (util.py)\<close>

text \<open>\<^verbatim>\<open>key.split('.')\<close>: always at least one segment.\<close>

fun split_on :: "char \<Rightarrow> string \<Rightarrow> string list" where
  "split_on c [] = [[]]"
| "split_on c (x # xs) =
     (if x = c then [] # split_on c xs
      else (case split_on c xs of
              [] \<Rightarrow> [[x]]
            | seg # segs \<Rightarrow> (x # seg) # segs))"

text \<open>
  \<^verbatim>\<open>int(key)\<close> on a string: surrounding whitespace is stripped, one sign is allowed,
  then decimal digits, with single underscores allowed between digits. Only ASCII
  whitespace and digits are modelled.
\<close>

definition is_space :: "char \<Rightarrow> bool" where
  "is_space c = (c \<in> set [CHR '' '', CHR 0x09, CHR 0x0A, CHR 0x0B, CHR 0x0C, CHR 0x0D,
                          CHR 0x1C, CHR 0x1D, CHR 0x1E, CHR 0x1F])"

definition is_digit :: "char \<Rightarrow> bool" where
  "is_digit c = (c \<in> set ''0123456789'')"

definition digit_val :: "char \<Rightarrow> int" where
  "digit_val c = int (of_char c) - 48"

definition strip :: "string \<Rightarrow> string" where
  "strip s = rev (dropWhile is_space (rev (dropWhile is_space s)))"

text \<open>Digits with single underscores between them; the accumulator is the value so far.\<close>

fun digits_val :: "int \<Rightarrow> string \<Rightarrow> int option" where
  "digits_val acc [] = Some acc"
| "digits_val acc [c] = (if is_digit c then Some (acc * 10 + digit_val c) else None)"
| "digits_val acc (c # d # cs) =
     (if is_digit c then
        (if d = CHR ''_'' then
           (case cs of [] \<Rightarrow> None
            | e # _ \<Rightarrow> if is_digit e then digits_val (acc * 10 + digit_val c) cs else None)
         else digits_val (acc * 10 + digit_val c) (d # cs))
      else None)"

definition py_int :: "string \<Rightarrow> int option" where
  "py_int s =
     (case strip s of
        [] \<Rightarrow> None
      | c # cs \<Rightarrow>
          if c = CHR ''-'' then (if cs = [] then None else map_option uminus (digits_val 0 cs))
          else if c = CHR ''+'' then (if cs = [] then None else digits_val 0 cs)
          else digits_val 0 (c # cs))"

text \<open>\<^verbatim>\<open>xs[i]\<close> on a list: a negative index counts from the end.\<close>

definition list_index :: "pyval list \<Rightarrow> int \<Rightarrow> pyval result" where
  "list_index xs i =
     (if 0 \<le> i \<and> i < int (length xs) then Inr (xs ! nat i)
      else if i < 0 \<and> - int (length xs) \<le> i then Inr (xs ! nat (int (length xs) + i))
      else Inl IndexError)"

text \<open>
  One step of the \<^verbatim>\<open>reduce\<close> in \<^verbatim>\<open>LookupDict.lookup\<close>:
  \<^verbatim>\<open>obj[int(key) if type(obj) is list else key]\<close>.
\<close>

fun lookup_step :: "pyval \<Rightarrow> string \<Rightarrow> pyval result" where
  "lookup_step (PList xs) seg =
     (case py_int seg of None \<Rightarrow> Inl ValueError | Some i \<Rightarrow> list_index xs i)"
| "lookup_step (PDict d) seg =
     (case map_of d seg of None \<Rightarrow> Inl KeyError | Some v \<Rightarrow> Inr v)"
| "lookup_step _ seg = Inl TypeError"

fun lookup_segs :: "pyval \<Rightarrow> string list \<Rightarrow> pyval result" where
  "lookup_segs obj [] = Inr obj"
| "lookup_segs obj (seg # segs) =
     (case lookup_step obj seg of Inl e \<Rightarrow> Inl e | Inr v \<Rightarrow> lookup_segs v segs)"

definition lookup :: "(string \<times> pyval) list \<Rightarrow> string \<Rightarrow> pyval result" where
  "lookup d key = lookup_segs (PDict d) (split_on CHR ''.'' key)"

section \<open>Merging (class Merge, phiera.py)\<close>

text \<open>\<^verbatim>\<open>d[k] = v\<close> on an ordered mapping: an existing key keeps its place, a new key goes last.\<close>

fun dict_set :: "(string \<times> pyval) list \<Rightarrow> string \<Rightarrow> pyval \<Rightarrow> (string \<times> pyval) list" where
  "dict_set [] k v = [(k, v)]"
| "dict_set (kv # d) k v = (if fst kv = k then (k, v) # d else kv # dict_set d k v)"

text \<open>
  \<^verbatim>\<open>Merge.deep_merge(a, b)\<close>. The accumulator \<^verbatim>\<open>a\<close> is a mapping; \<^verbatim>\<open>deep_merge_items\<close> is the
  loop \<^verbatim>\<open>for k, v in b.items()\<close> over the copy \<^verbatim>\<open>result\<close>.
\<close>

fun deep_merge :: "(string \<times> pyval) list \<Rightarrow> pyval \<Rightarrow> pyval"
  and deep_merge_items ::
    "(string \<times> pyval) list \<Rightarrow> (string \<times> pyval) list \<Rightarrow> (string \<times> pyval) list" where
  "deep_merge a b = (case b of PDict e \<Rightarrow> PDict (deep_merge_items a e) | _ \<Rightarrow> b)"
| "deep_merge_items result [] = result"
| "deep_merge_items result (kv # e) =
     deep_merge_items
       (case map_of result (fst kv) of
          Some (PDict r) \<Rightarrow> dict_set result (fst kv) (deep_merge r (snd kv))
        | Some (PList xs) \<Rightarrow>
            (case snd kv of
               PList ys \<Rightarrow> dict_set result (fst kv) (PList (xs @ filter (\<lambda>y. \<not> py_in y xs) ys))
             | v \<Rightarrow> dict_set result (fst kv) (PList (xs @ [v])))
        | _ \<Rightarrow> dict_set result (fst kv) (snd kv))
       e"

section \<open>The patterns of phiera.py\<close>

text \<open>
  The two patterns used by the resolver, as matchers at the start of a string. Neither
  pattern can backtrack into a different match: the name alternatives are not prefixes of
  one another, the optional \<^verbatim>\<open>::\<close> is taken whenever it is there, and the argument class
  excludes the character that has to follow it.
  \<^verbatim>\<open>function\<close> is \<^verbatim>\<open>%\{(scope|hiera|lookup|literal|alias)\(['"](?:::|)([^"']*)["']\)\}\<close>,
  \<^verbatim>\<open>interpolate\<close> is \<^verbatim>\<open>%\{(?:::|)([^\}]*)\}\<close>.
\<close>

text \<open>The rest of a string after a given prefix, if it starts with it.\<close>

fun strip_prefix :: "string \<Rightarrow> string \<Rightarrow> string option" where
  "strip_prefix [] s = Some s"
| "strip_prefix (p # ps) [] = None"
| "strip_prefix (p # ps) (c # cs) = (if p = c then strip_prefix ps cs else None)"

definition is_quote :: "char \<Rightarrow> bool" where
  "is_quote c = (c = CHR 0x27 \<or> c = CHR 0x22)"

definition skip_colons :: "string \<Rightarrow> string" where
  "skip_colons s = (case strip_prefix ''::'' s of Some t \<Rightarrow> t | None \<Rightarrow> s)"

definition function_names :: "string list" where
  "function_names = [''scope'', ''hiera'', ''lookup'', ''literal'', ''alias'']"

definition function_match :: "string \<Rightarrow> ((string \<times> string) \<times> string) option" where
  "function_match s =
     do {
       s1 \<leftarrow> strip_prefix ''%{'' s;
       name \<leftarrow> find (\<lambda>n. strip_prefix n s1 \<noteq> None) function_names;
       s2 \<leftarrow> strip_prefix (name @ ''('') s1;
       s3 \<leftarrow> (case s2 of [] \<Rightarrow> None | q # t \<Rightarrow> if is_quote q then Some t else None);
       let s4 = skip_colons s3;
       let arg = takeWhile (\<lambda>c. \<not> is_quote c) s4;
       s5 \<leftarrow> (case dropWhile (\<lambda>c. \<not> is_quote c) s4 of [] \<Rightarrow> None | q # t \<Rightarrow> Some t);
       rest \<leftarrow> strip_prefix '')}'' s5;
       Some ((name, arg), rest)
     }"

definition interpolate_match :: "string \<Rightarrow> (string \<times> string) option" where
  "interpolate_match s =
     do {
       s1 \<leftarrow> strip_prefix ''%{'' s;
       let s2 = skip_colons s1;
       (case dropWhile (\<lambda>c. c \<noteq> CHR ''}'') s2 of
          [] \<Rightarrow> None
        | q # rest \<Rightarrow> Some (takeWhile (\<lambda>c. c \<noteq> CHR ''}'') s2, rest))
     }"

text \<open>Leftmost match: the text before it, the groups, the text after it.\<close>

fun re_search :: "(string \<Rightarrow> ('g \<times> string) option) \<Rightarrow> string \<Rightarrow> (string \<times> 'g \<times> string) option" where
  "re_search m [] = None"
| "re_search m (c # cs) =
     (case m (c # cs) of
        Some (g, rest) \<Rightarrow> Some ([], g, rest)
      | None \<Rightarrow> map_option (\<lambda>(pre, g, rest). (c # pre, g, rest)) (re_search m cs))"


text \<open>
  The replacement argument of \<^verbatim>\<open>sub\<close> is a template: \<^verbatim>\<open>\g<n>\<close> and \<^verbatim>\<open>\1\<close> to \<^verbatim>\<open>\99\<close> stand for groups,
  backslash escapes for characters, and an unknown escape with an ASCII letter, a
  reference to a group the pattern does not have, or a trailing backslash are errors.
  No pattern here has named groups, so \<^verbatim>\<open>\g<name>\<close> is an \<^verbatim>\<open>IndexError\<close>.
\<close>

definition is_octdigit :: "char \<Rightarrow> bool" where
  "is_octdigit c = (c \<in> set ''01234567'')"

definition is_ascii_letter :: "char \<Rightarrow> bool" where
  "is_ascii_letter c = (c \<in> set ''abcdefghijklmnopqrstuvwxyzABCDEFGHIJKLMNOPQRSTUVWXYZ'')"

definition is_identifier :: "string \<Rightarrow> bool" where
  "is_identifier n =
     (case n of [] \<Rightarrow> False
      | c # cs \<Rightarrow> (is_ascii_letter c \<or> c = CHR ''_'') \<and>
                 list_all (\<lambda>d. is_ascii_letter d \<or> is_digit d \<or> d = CHR ''_'') cs)"

definition digits_nat :: "nat \<Rightarrow> string \<Rightarrow> nat" where
  "digits_nat base ds = foldl (\<lambda>a c. a * base + nat (digit_val c)) 0 ds"

definition escape_char :: "char \<Rightarrow> char option" where
  "escape_char e =
     (if e = CHR ''a'' then Some (CHR 0x07) else if e = CHR ''b'' then Some (CHR 0x08)
      else if e = CHR ''f'' then Some (CHR 0x0C) else if e = CHR ''n'' then Some (CHR 0x0A)
      else if e = CHR ''r'' then Some (CHR 0x0D) else if e = CHR ''t'' then Some (CHR 0x09)
      else if e = CHR ''v'' then Some (CHR 0x0B) else if e = CHR 0x5C then Some (CHR 0x5C)
      else None)"

definition group_ref :: "string list \<Rightarrow> nat \<Rightarrow> string result" where
  "group_ref g i = (if i < length g then Inr (g ! i) else Inl ReError)"

text \<open>Output produced before the rest of the work, which may still fail.\<close>

definition emit :: "string \<Rightarrow> string result \<Rightarrow> string result" where
  "emit x r = (case r of Inl e \<Rightarrow> Inl e | Inr t \<Rightarrow> Inr (x @ t))"

text \<open>The expansion of a template over the groups of a match (group 0 is the match).\<close>

function expand_template :: "string list \<Rightarrow> string \<Rightarrow> string result" where
  "expand_template g [] = Inr []"
| "expand_template g (c # cs) =
     (if c \<noteq> CHR 0x5C then emit [c] (expand_template g cs)
      else (case cs of
        [] \<Rightarrow> Inl ReError
      | e # es \<Rightarrow>
          if e = CHR ''g'' then
            (case es of
               [] \<Rightarrow> Inl ReError
             | lt # ns \<Rightarrow>
                 if lt \<noteq> CHR ''<'' then Inl ReError
                 else if dropWhile (\<lambda>x. x \<noteq> CHR ''>'') ns = [] then Inl ReError
                 else if takeWhile (\<lambda>x. x \<noteq> CHR ''>'') ns = [] then Inl ReError
                 else if is_identifier (takeWhile (\<lambda>x. x \<noteq> CHR ''>'') ns) then Inl IndexError
                 else if \<not> list_all is_digit (takeWhile (\<lambda>x. x \<noteq> CHR ''>'') ns) then Inl ReError
                 else (case group_ref g (digits_nat 10 (takeWhile (\<lambda>x. x \<noteq> CHR ''>'') ns)) of
                         Inl err \<Rightarrow> Inl err
                       | Inr v \<Rightarrow> emit v (expand_template g (tl (dropWhile (\<lambda>x. x \<noteq> CHR ''>'') ns)))))
          else if e = CHR ''0'' then
            (let ds = takeWhile is_octdigit (take 2 es)
             in emit [char_of (digits_nat 8 ds mod 256)] (expand_template g (drop (length ds) es)))
          else if is_digit e then
            (case es of
               d1 # es1 \<Rightarrow>
                 if is_digit d1 then
                   (case es1 of
                      d2 # es2 \<Rightarrow>
                        if is_octdigit e \<and> is_octdigit d1 \<and> is_octdigit d2 then
                          (if digits_nat 8 [e, d1, d2] > 255 then Inl ReError
                           else emit [char_of (digits_nat 8 [e, d1, d2])] (expand_template g es2))
                        else (case group_ref g (digits_nat 10 [e, d1]) of
                                Inl err \<Rightarrow> Inl err | Inr v \<Rightarrow> emit v (expand_template g es1))
                    | [] \<Rightarrow> (case group_ref g (digits_nat 10 [e, d1]) of
                                Inl err \<Rightarrow> Inl err | Inr v \<Rightarrow> emit v (expand_template g es1)))
                 else (case group_ref g (digits_nat 10 [e]) of
                         Inl err \<Rightarrow> Inl err | Inr v \<Rightarrow> emit v (expand_template g es))
             | [] \<Rightarrow> (case group_ref g (digits_nat 10 [e]) of
                         Inl err \<Rightarrow> Inl err | Inr v \<Rightarrow> emit v (expand_template g es)))
          else (case escape_char e of
                  Some x \<Rightarrow> emit [x] (expand_template g es)
                | None \<Rightarrow> if is_ascii_letter e then Inl ReError
                          else emit [CHR 0x5C, e] (expand_template g es))))"
  by pat_completeness auto
termination
  by (relation "measure (\<lambda>(g, s). length s)")
     (auto simp: less_Suc_eq_le le_SucI length_dropWhile_le intro: le_trans [OF diff_le_self])


text \<open>The template is compiled before the subject is searched, so its errors are raised
  whether or not there is a match.\<close>

definition template_check :: "nat \<Rightarrow> string \<Rightarrow> error option" where
  "template_check ngroups repl =
     (case expand_template (replicate (Suc ngroups) []) repl of Inl e \<Rightarrow> Some e | Inr _ \<Rightarrow> None)"

text \<open>The matched text, between the text before the match and the text after it.\<close>

definition matched :: "string \<Rightarrow> string \<Rightarrow> string \<Rightarrow> string" where
  "matched s pre rest = take (length s - length pre - length rest) (drop (length pre) s)"

text \<open>\<^verbatim>\<open>pattern.sub(repl, s, 1)\<close>: the first match is replaced.\<close>

definition re_sub1 ::
  "(string \<Rightarrow> ('g \<times> string) option) \<Rightarrow> ('g \<Rightarrow> string list) \<Rightarrow> nat \<Rightarrow> string \<Rightarrow> string \<Rightarrow> string result" where
  "re_sub1 m groups ngroups repl s =
     (case template_check ngroups repl of
        Some e \<Rightarrow> Inl e
      | None \<Rightarrow>
          (case re_search m s of
             None \<Rightarrow> Inr s
           | Some (pre, g, rest) \<Rightarrow>
               (case expand_template (matched s pre rest # groups g) repl of
                  Inl e \<Rightarrow> Inl e
                | Inr t \<Rightarrow> Inr (pre @ t @ rest))))"

text \<open>\<^verbatim>\<open>pattern.findall(s)\<close>: the groups of the successive matches. A match of the patterns
  here is never empty, so the scan always goes on in a shorter string.\<close>

function re_findall :: "(string \<Rightarrow> ('g \<times> string) option) \<Rightarrow> string \<Rightarrow> 'g list" where
  "re_findall m s =
     (case re_search m s of
        None \<Rightarrow> []
      | Some (pre, g, rest) \<Rightarrow> g # (if length rest < length s then re_findall m rest else []))"
  by pat_completeness auto
termination
  by (relation "measure (\<lambda>(m, s). length s)") auto

text \<open>\<^verbatim>\<open>pattern.sub(repl, s)\<close> for a template that compiles: every match is replaced.\<close>

function re_sub_all ::
  "(string \<Rightarrow> ('g \<times> string) option) \<Rightarrow> ('g \<Rightarrow> string list) \<Rightarrow> string \<Rightarrow> string \<Rightarrow> string result" where
  "re_sub_all m groups repl s =
     (case re_search m s of
        None \<Rightarrow> Inr s
      | Some (pre, g, rest) \<Rightarrow>
          (case expand_template (matched s pre rest # groups g) repl of
             Inl e \<Rightarrow> Inl e
           | Inr t \<Rightarrow> emit (pre @ t)
                       (if length rest < length s then re_sub_all m groups repl rest else Inr rest)))"
  by pat_completeness auto
termination
  by (relation "measure (\<lambda>(m, groups, repl, s). length s)") auto

definition function_groups :: "string \<times> string \<Rightarrow> string list" where
  "function_groups g = [fst g, snd g]"

definition function_findall :: "string \<Rightarrow> (string \<times> string) list" where
  "function_findall s = re_findall function_match s"

definition function_sub1 :: "string \<Rightarrow> string \<Rightarrow> string result" where
  "function_sub1 repl s = re_sub1 function_match function_groups 2 repl s"

definition function_sub_all :: "string \<Rightarrow> string \<Rightarrow> string result" where
  "function_sub_all repl s =
     (case template_check 2 repl of
        Some e \<Rightarrow> Inl e
      | None \<Rightarrow> re_sub_all function_match function_groups repl s)"

definition interpolate_findall :: "string \<Rightarrow> string list" where
  "interpolate_findall s = re_findall interpolate_match s"

definition interpolate_sub1 :: "string \<Rightarrow> string \<Rightarrow> string result" where
  "interpolate_sub1 repl s = re_sub1 interpolate_match (\<lambda>g. [g]) 1 repl s"

section \<open>Truthiness and the merge accumulator\<close>

type_synonym ctx = "string \<rightharpoonup> pyval"

text \<open>Python's truth value of a value.\<close>

fun py_truthy :: "pyval \<Rightarrow> bool" where
  "py_truthy PNone = False"
| "py_truthy (PBool b) = b"
| "py_truthy (PInt i) = (i \<noteq> 0)"
| "py_truthy (PStr s) = (s \<noteq> [])"
| "py_truthy (PList xs) = (xs \<noteq> [])"
| "py_truthy (PSet xs) = (xs \<noteq> [])"
| "py_truthy (PDict d) = (d \<noteq> [])"

text \<open>
  The merge type handed to \<^verbatim>\<open>get\<close>: \<^verbatim>\<open>list\<close>, \<^verbatim>\<open>set\<close>, \<^verbatim>\<open>dict\<close>, \<^verbatim>\<open>str\<close>, or any other
  callable, represented by the value its call without arguments returns (a value that
  is no list, set, mapping or string, such as \<^verbatim>\<open>int() = 0\<close>).
\<close>

datatype merge_typ = TList | TSet | TDict | TStr | TOther pyval

text \<open>The fields \<^verbatim>\<open>typ\<close>, \<^verbatim>\<open>deep\<close> and \<^verbatim>\<open>value\<close> of a \<^verbatim>\<open>Merge\<close> object.\<close>

record Merge =
  mtyp :: merge_typ
  deep :: bool
  mvalue :: pyval

text \<open>\<^verbatim>\<open>Merge.__init__\<close>: the accumulator starts as \<^verbatim>\<open>LookupDict()\<close> or \<^verbatim>\<open>typ()\<close>.\<close>

definition Merge_init :: "merge_typ \<Rightarrow> bool \<Rightarrow> Merge" where
  "Merge_init t d =
     \<lparr>mtyp = t, deep = d,
      mvalue = (case t of TList \<Rightarrow> PList [] | TSet \<Rightarrow> PSet [] | TDict \<Rightarrow> PDict []
                | TStr \<Rightarrow> PStr [] | TOther v \<Rightarrow> v)\<rparr>"

text \<open>\<^verbatim>\<open>list(value)\<close>: the elements of an iterable; a mapping yields its keys, a string its characters.\<close>

fun py_list :: "pyval \<Rightarrow> pyval list result" where
  "py_list (PList xs) = Inr xs"
| "py_list (PSet xs) = Inr xs"
| "py_list (PDict d) = Inr (map (\<lambda>kv. PStr (fst kv)) d)"
| "py_list (PStr s) = Inr (map (\<lambda>c. PStr [c]) s)"
| "py_list _ = Inl TypeError"

text \<open>Lists and sets are unhashable; a \<^verbatim>\<open>LookupDict\<close> defines \<^verbatim>\<open>__hash__\<close>.\<close>

fun py_hashable :: "pyval \<Rightarrow> bool" where
  "py_hashable (PList xs) = False"
| "py_hashable (PSet xs) = False"
| "py_hashable _ = True"

definition set_add :: "pyval list \<Rightarrow> pyval \<Rightarrow> pyval list" where
  "set_add s x = (if py_in x s then s else s @ [x])"

text \<open>\<^verbatim>\<open>s | set(value)\<close>; a set is kept as the list of its elements without repetition.\<close>

definition set_union :: "pyval list \<Rightarrow> pyval \<Rightarrow> pyval list result" where
  "set_union s v =
     (case py_list v of
        Inl e \<Rightarrow> Inl e
      | Inr xs \<Rightarrow> if list_all py_hashable xs then Inr (foldl set_add s xs) else Inl TypeError)"

text \<open>\<^verbatim>\<open>Merge.merge_value\<close>; the dispatch is on the accumulator's current value.\<close>

definition merge_value :: "Merge \<Rightarrow> pyval \<Rightarrow> Merge result" where
  "merge_value m v =
     (case mvalue m of
        PList xs \<Rightarrow>
          (case py_list v of Inl e \<Rightarrow> Inl e | Inr ys \<Rightarrow> Inr (m\<lparr>mvalue := PList (xs @ ys)\<rparr>))
      | PSet xs \<Rightarrow>
          (case set_union xs v of Inl e \<Rightarrow> Inl e | Inr ys \<Rightarrow> Inr (m\<lparr>mvalue := PSet ys\<rparr>))
      | PDict d \<Rightarrow>
          if deep m then Inr (m\<lparr>mvalue := deep_merge d v\<rparr>)
          else (case v of
                  PDict e \<Rightarrow>
                    Inr (m\<lparr>mvalue := PDict (foldl (\<lambda>acc kv. if map_of acc (fst kv) = None
                                                             then dict_set acc (fst kv) (snd kv)
                                                             else acc) d e)\<rparr>)
                | _ \<Rightarrow> Inl AttributeError)
      | PStr s \<Rightarrow> Inr (m\<lparr>mvalue := v\<rparr>)
      | _ \<Rightarrow> Inl TypeError)"

section \<open>Resolving values (class Hiera, phiera.py)\<close>

text \<open>\<^verbatim>\<open>context.get(i) or ''\<close>.\<close>

definition get_or_empty :: "ctx \<Rightarrow> string \<Rightarrow> pyval" where
  "get_or_empty context i =
     (case context i of None \<Rightarrow> PStr [] | Some v \<Rightarrow> if py_truthy v then v else PStr [])"

text \<open>
  \<^verbatim>\<open>Hiera.resolve_interpolates\<close>: for each name found in the string as it was at the start,
  the first match in the string as it is now is replaced. A replacement that is not a
  string makes \<^verbatim>\<open>re.sub\<close> raise \<^verbatim>\<open>TypeError\<close>.
\<close>

fun interpolate_loop :: "ctx \<Rightarrow> string \<Rightarrow> string list \<Rightarrow> string result" where
  "interpolate_loop context s [] = Inr s"
| "interpolate_loop context s (i # interps) =
     (case get_or_empty context i of
        PStr r \<Rightarrow>
          (case interpolate_sub1 r s of
             Inl e \<Rightarrow> Inl e
           | Inr s' \<Rightarrow> interpolate_loop context s' interps)
      | _ \<Rightarrow> Inl TypeError)"

definition resolve_interpolates :: "string \<Rightarrow> ctx \<Rightarrow> string result" where
  "resolve_interpolates s context = interpolate_loop context s (interpolate_findall s)"

text \<open>\<^verbatim>\<open>Hiera.can_resolve\<close>.\<close>

definition can_resolve :: "pyval \<Rightarrow> bool" where
  "can_resolve s =
     (case s of
        PStr t \<Rightarrow> function_findall t \<noteq> [] \<or> interpolate_findall t \<noteq> []
      | _ \<Rightarrow> False)"

text \<open>
  Lookups can re-enter one another without bound (an alias of an alias of ...), so the
  recursive functions take fuel: \<open>None\<close> says that the fuel ran out, \<open>Some (Inl e)\<close> that
  the exception \<open>e\<close> was raised, \<open>Some (Inr v)\<close> that \<open>v\<close> was returned.
\<close>

type_synonym 'a outcome = "'a result option"

definition obind :: "'a outcome \<Rightarrow> ('a \<Rightarrow> 'b outcome) \<Rightarrow> 'b outcome" where
  "obind r f = (case r of None \<Rightarrow> None | Some (Inl e) \<Rightarrow> Some (Inl e) | Some (Inr v) \<Rightarrow> f v)"

definition raise :: "error \<Rightarrow> 'a outcome" where
  "raise e = Some (Inl e)"

definition return :: "'a \<Rightarrow> 'a outcome" where
  "return v = Some (Inr v)"

definition lift :: "'a result \<Rightarrow> 'a outcome" where
  "lift r = Some r"

text \<open>The document cache: the parsed document of each loaded path (\<^verbatim>\<open>None\<close> for an empty file).\<close>

type_synonym doc_cache = "string \<rightharpoonup> pyval"

text \<open>\<^verbatim>\<open>Hiera.resolve_dict\<close> and \<^verbatim>\<open>Hiera.resolve_list\<close>, over the function that resolves one value.\<close>

primrec resolve_dict ::
  "(pyval \<Rightarrow> pyval outcome) \<Rightarrow> (string \<times> pyval) list \<Rightarrow> (string \<times> pyval) list \<Rightarrow> pyval outcome" where
  "resolve_dict rs new_obj [] = return (PDict new_obj)"
| "resolve_dict rs new_obj (kv # obj) =
     obind (rs (snd kv)) (\<lambda>v. resolve_dict rs (dict_set new_obj (fst kv) v) obj)"

primrec resolve_list :: "(pyval \<Rightarrow> pyval outcome) \<Rightarrow> pyval list \<Rightarrow> pyval list \<Rightarrow> pyval outcome" where
  "resolve_list rs done [] = return (PList done)"
| "resolve_list rs done (item # obj) =
     obind (rs item) (\<lambda>v. resolve_list rs (done @ [v]) obj)"

text \<open>
  \<^verbatim>\<open>function.sub(replace, s, 1)\<close> where \<^verbatim>\<open>s\<close> may have stopped being a string: the
  replacement template is compiled first, then the subject is inspected.
\<close>

definition function_sub1_val :: "string \<Rightarrow> pyval \<Rightarrow> string result" where
  "function_sub1_val repl s =
     (case template_check 2 repl of
        Some e \<Rightarrow> Inl e
      | None \<Rightarrow> (case s of PStr t \<Rightarrow> function_sub1 repl t | _ \<Rightarrow> Inl TypeError))"

text \<open>
  The loop \<^verbatim>\<open>for call, arg in calls\<close> of \<^verbatim>\<open>Hiera.resolve_function\<close>, over the function
  \<open>gk\<close> that looks a key up (\<^verbatim>\<open>self.get_key(arg, paths, context, merge)\<close>).
\<close>

primrec resolve_calls ::
  "(string \<Rightarrow> pyval outcome) \<Rightarrow> ctx \<Rightarrow> pyval \<Rightarrow> (string \<times> string) list \<Rightarrow> pyval outcome" where
  "resolve_calls gk context s [] = return s"
| "resolve_calls gk context s (ca # calls) =
     obind
       (if fst ca = ''hiera'' \<or> fst ca = ''lookup'' then gk (snd ca)
        else if fst ca = ''scope'' then
          return (case context (snd ca) of None \<Rightarrow> PNone | Some v \<Rightarrow> v)
        else if fst ca = ''literal'' then return (PStr (snd ca))
        else raise GenericException)
       (\<lambda>replace.
          if \<not> py_truthy replace then raise GenericException
          else (case replace of
                  PStr r \<Rightarrow>
                    obind (lift (function_sub1_val r s))
                      (\<lambda>s'. resolve_calls gk context (PStr s') calls)
                | _ \<Rightarrow>
                    if fst ca = ''scope'' then resolve_calls gk context replace calls
                    else raise GenericException))"

text \<open>
  The loop \<^verbatim>\<open>for path in paths\<close> of \<^verbatim>\<open>Hiera.get_key\<close> and what follows it, over the
  function \<open>rs\<close> that resolves a found value under a given merge argument. \<open>merges\<close> is
  the entry of the local dictionary \<^verbatim>\<open>merges\<close> for the key, if there is one.
\<close>

primrec get_key_paths ::
  "(Merge option \<Rightarrow> pyval \<Rightarrow> pyval outcome) \<Rightarrow> doc_cache \<Rightarrow> string option \<Rightarrow> Merge option \<Rightarrow>
   Merge option \<Rightarrow> string list \<Rightarrow> pyval outcome" where
  "get_key_paths rs cache key merge merges [] =
     (case merge of
        None \<Rightarrow> raise KeyError
      | Some m \<Rightarrow>
          (case merges of
             None \<Rightarrow> raise KeyError
           | Some acc \<Rightarrow> if mvalue acc \<noteq> PNone then return (mvalue acc) else raise KeyError))"
| "get_key_paths rs cache key merge merges (path # paths) =
     (case cache path of
        None \<Rightarrow> raise KeyError
      | Some doc \<Rightarrow>
          (case key of
             None \<Rightarrow> get_key_paths rs cache key merge merges paths
           | Some k \<Rightarrow>
               (case doc of
                  PNone \<Rightarrow> get_key_paths rs cache key merge merges paths
                | PDict d \<Rightarrow>
                    (case lookup d k of
                       Inl e \<Rightarrow>
                         if e = KeyError then get_key_paths rs cache key merge merges paths
                         else raise e
                     | Inr found \<Rightarrow>
                         if found = PNone then get_key_paths rs cache key merge merges paths
                         else
                         (case merge of
                            None \<Rightarrow> rs None found
                          | Some m \<Rightarrow>
                              (let acc = (case merges of
                                            None \<Rightarrow> Merge_init (mtyp m) (deep m)
                                          | Some a \<Rightarrow> a)
                               in obind (rs (if deep m then Some acc else merge) found)
                                    (\<lambda>v. obind (lift (merge_value acc v))
                                       (\<lambda>acc'. get_key_paths rs cache key merge (Some acc') paths)))))
                | _ \<Rightarrow> raise AttributeError)))"

text \<open>
  The body of \<^verbatim>\<open>Hiera.resolve\<close>, over the functions \<open>rs\<close> (\<^verbatim>\<open>self.resolve\<close> with the same
  paths, context and merge) and \<open>rf\<close> (\<^verbatim>\<open>self.resolve_function\<close>, likewise).
\<close>

definition resolve_body ::
  "(pyval \<Rightarrow> pyval outcome) \<Rightarrow> (string \<Rightarrow> pyval outcome) \<Rightarrow> pyval \<Rightarrow> ctx \<Rightarrow> pyval outcome" where
  "resolve_body rs rf s context =
     (case s of
        PDict d \<Rightarrow> resolve_dict rs [] d
      | PList xs \<Rightarrow> resolve_list rs [] xs
      | PStr t \<Rightarrow>
          if \<not> can_resolve s then return s
          else obind (rf t)
                 (\<lambda>base. case base of
                            PStr b \<Rightarrow> obind (lift (resolve_interpolates b context)) (\<lambda>r. return (PStr r))
                          | _ \<Rightarrow> return base)
      | _ \<Rightarrow> return s)"

text \<open>
  The body of \<^verbatim>\<open>Hiera.resolve_function\<close>, over the function \<open>gk\<close> that looks a key up
  (\<^verbatim>\<open>self.get_key\<close> with the same paths, context and merge).
\<close>

definition resolve_function_body ::
  "(string \<Rightarrow> pyval outcome) \<Rightarrow> string \<Rightarrow> ctx \<Rightarrow> pyval outcome" where
  "resolve_function_body gk s context =
     (let calls = function_findall s in
      if length calls = 1 \<and> fst (hd calls) = ''alias'' then
        obind (lift (function_sub_all [] s))
          (\<lambda>r. if r \<noteq> [] then raise GenericException
                else (let v = gk (snd (hd calls))
                      in if v = raise KeyError then raise InterpolationError else v))
      else resolve_calls gk context (PStr s) calls)"

text \<open>
  \<^verbatim>\<open>Hiera.get_key\<close>, \<^verbatim>\<open>Hiera.resolve\<close> and \<^verbatim>\<open>Hiera.resolve_function\<close>: each call into
  another of the three spends one unit of fuel.
\<close>

fun get_key ::
    "nat \<Rightarrow> doc_cache \<Rightarrow> string option \<Rightarrow> string list \<Rightarrow> ctx \<Rightarrow> Merge option \<Rightarrow> pyval outcome"
  and resolve ::
    "nat \<Rightarrow> doc_cache \<Rightarrow> pyval \<Rightarrow> string list \<Rightarrow> ctx \<Rightarrow> Merge option \<Rightarrow> pyval outcome"
  and resolve_function ::
    "nat \<Rightarrow> doc_cache \<Rightarrow> string \<Rightarrow> string list \<Rightarrow> ctx \<Rightarrow> Merge option \<Rightarrow> pyval outcome" where
  "get_key 0 cache key paths context merge = None"
| "get_key (Suc n) cache key paths context merge =
     get_key_paths (\<lambda>m v. resolve n cache v paths context m) cache key merge None paths"
| "resolve 0 cache s paths context merge = None"
| "resolve (Suc n) cache s paths context merge =
     resolve_body (\<lambda>v. resolve n cache v paths context merge)
       (\<lambda>t. resolve_function n cache t paths context merge) s context"
| "resolve_function 0 cache s paths context merge = None"
| "resolve_function (Suc n) cache s paths context merge =
     resolve_function_body (\<lambda>arg. get_key n cache (Some arg) paths context merge) s context"

section \<open>Rendering path templates\<close>

text \<open>\<^verbatim>\<open>str(i)\<close> for an integer.\<close>

function nat_digits :: "nat \<Rightarrow> string" where
  "nat_digits n =
     (if n < 10 then [char_of (48 + n)] else nat_digits (n div 10) @ [char_of (48 + n mod 10)])"
  by pat_completeness auto
termination
  by (relation "measure id") auto

definition str_int :: "int \<Rightarrow> string" where
  "str_int i = (if i < 0 then CHR ''-'' # nat_digits (nat (- i)) else nat_digits (nat i))"

text \<open>
  \<^verbatim>\<open>str(v)\<close> as \<^verbatim>\<open>str.format\<close> applies it to a field's value. The \<^verbatim>\<open>repr\<close>-based forms of
  containers are not modelled.
\<close>

fun py_str :: "pyval \<Rightarrow> string result" where
  "py_str (PStr s) = Inr s"
| "py_str (PInt i) = Inr (str_int i)"
| "py_str (PBool b) = Inr (if b then ''True'' else ''False'')"
| "py_str PNone = Inr ''None''"
| "py_str _ = Inl Unsupported"

text \<open>
  \<^verbatim>\<open>template.format(**context)\<close>. Doubled braces are literal braces; a field \<^verbatim>\<open>{name}\<close> is
  looked up among the keyword arguments (\<^verbatim>\<open>KeyError\<close> when it is missing); an empty or
  all-digit name is a positional reference, and there are no positional arguments
  (\<^verbatim>\<open>IndexError\<close>); unbalanced braces are a \<^verbatim>\<open>ValueError\<close>. Fields with attribute or
  index access, a conversion or a format specification are outside the modelled fragment.
\<close>

function py_format :: "ctx \<Rightarrow> string \<Rightarrow> string result" where
  "py_format context [] = Inr []"
| "py_format context (c # cs) =
     (if c = CHR ''{'' then
        (if cs \<noteq> [] \<and> hd cs = CHR ''{'' then emit ''{'' (py_format context (tl cs))
         else if dropWhile (\<lambda>x. x \<noteq> CHR ''}'') cs = [] then Inl ValueError
         else if list_ex (\<lambda>x. x \<in> set ''.[!:'') (takeWhile (\<lambda>x. x \<noteq> CHR ''}'') cs)
           then Inl Unsupported
         else if list_ex (\<lambda>x. x = CHR ''{'') (takeWhile (\<lambda>x. x \<noteq> CHR ''}'') cs)
           then Inl ValueError
         else if list_all is_digit (takeWhile (\<lambda>x. x \<noteq> CHR ''}'') cs) then Inl IndexError
         else (case context (takeWhile (\<lambda>x. x \<noteq> CHR ''}'') cs) of
                 None \<Rightarrow> Inl KeyError
               | Some v \<Rightarrow>
                   (case py_str v of
                      Inl e \<Rightarrow> Inl e
                    | Inr t \<Rightarrow> emit t (py_format context (tl (dropWhile (\<lambda>x. x \<noteq> CHR ''}'') cs))))))
      else if c = CHR ''}'' then
        (if cs \<noteq> [] \<and> hd cs = CHR ''}'' then emit ''}'' (py_format context (tl cs))
         else Inl ValueError)
      else emit [c] (py_format context cs))"
  by pat_completeness auto
termination
  by (relation "measure (\<lambda>(context, s). length s)")
     (auto simp: less_Suc_eq_le le_SucI length_dropWhile_le intro: le_trans [OF diff_le_self])

text \<open>\<^verbatim>\<open>os.path.join\<close> (POSIX): an absolute component discards what precedes it.\<close>

definition path_join :: "string \<Rightarrow> string \<Rightarrow> string" where
  "path_join a b =
     (if b \<noteq> [] \<and> hd b = CHR ''/'' then b
      else if a = [] \<or> last a = CHR ''/'' then a @ b
      else a @ ''/'' @ b)"

section \<open>Backends, the file system and the document cache\<close>

text \<open>
  A backend instance: its \<^verbatim>\<open>NAME\<close>, its \<^verbatim>\<open>datadir\<close> template, and
  \<^verbatim>\<open>backend.load(backend.read_file(path))\<close> as one function of the path, which returns the
  parsed document or the exception raised by reading or parsing.
\<close>

record backend =
  NAME :: string
  datadir :: string
  read_load :: "string \<Rightarrow> pyval result"

text \<open>The file-system queries of \<^verbatim>\<open>get\<close>; \<open>walk\<close> lists the files below a directory, joined
  with their directories, in the order of \<^verbatim>\<open>os.walk\<close>.\<close>

record filesystem =
  isdir :: "string \<Rightarrow> bool"
  exists_path :: "string \<Rightarrow> bool"
  walk :: "string \<Rightarrow> string list"

text \<open>
  The mutable state: the context dictionaries by object identity, the engine's document
  cache, and the log of the paths handed to a backend for reading.
\<close>

record state =
  heap :: "nat \<Rightarrow> ctx"
  cache :: doc_cache
  reads :: "string list"

record Hiera =
  base_path :: string
  backends :: "backend list"
  hierarchy :: "string list"
  context_ref :: nat

text \<open>\<^verbatim>\<open>Hiera.load_file\<close>; the state is returned also when the call raises.\<close>

definition load_file :: "state \<Rightarrow> string \<Rightarrow> backend \<Rightarrow> bool \<Rightarrow> state \<times> string result" where
  "load_file st path b ignore_cache =
     (if cache st path = None \<or> ignore_cache then
        (case read_load b path of
           Inl e \<Rightarrow> (st\<lparr>reads := reads st @ [path]\<rparr>, Inl (LoadFailure path e))
         | Inr doc \<Rightarrow>
             (st\<lparr>cache := (cache st)(path \<mapsto> doc), reads := reads st @ [path]\<rparr>, Inr path))
      else (st, Inr path))"

text \<open>\<^verbatim>\<open>list(self.load_directory(path, backend))\<close> for a given backend, over the walked files.\<close>

primrec load_directory :: "backend \<Rightarrow> string list \<Rightarrow> string list \<Rightarrow> state \<Rightarrow> state \<times> string list result" where
  "load_directory b loaded [] st = (st, Inr loaded)"
| "load_directory b loaded (f # files) st =
     (case load_file st f b False of
        (st', Inl e) \<Rightarrow> (st', Inl e)
      | (st', Inr p) \<Rightarrow> load_directory b (loaded @ [p]) files st')"

section \<open>The lookup call (Hiera.get)\<close>

text \<open>
  The rendered path of one backend and one hierarchy level:
  \<^verbatim>\<open>os.path.join(self.base_path, backend.datadir.format(**ctx), path.format(**ctx))\<close>.
\<close>

definition render_path :: "Hiera \<Rightarrow> ctx \<Rightarrow> backend \<Rightarrow> string \<Rightarrow> string result" where
  "render_path h new_context b p =
     (case py_format new_context (datadir b) of
        Inl e \<Rightarrow> Inl e
      | Inr dd \<Rightarrow>
          (case py_format new_context p of
             Inl e \<Rightarrow> Inl e
           | Inr pp \<Rightarrow> Inr (path_join (path_join (base_path h) dd) pp)))"

text \<open>The inner loop \<^verbatim>\<open>for path in self.hierarchy\<close>; \<open>paths\<close> is the list built so far.\<close>

primrec paths_hierarchy ::
  "filesystem \<Rightarrow> Hiera \<Rightarrow> ctx \<Rightarrow> backend \<Rightarrow> string list \<Rightarrow> string list \<Rightarrow> state \<Rightarrow>
   state \<times> string list result" where
  "paths_hierarchy fs h new_context b [] paths st = (st, Inr paths)"
| "paths_hierarchy fs h new_context b (p # ps) paths st =
     (case render_path h new_context b p of
        Inl e \<Rightarrow>
          if e = KeyError then paths_hierarchy fs h new_context b ps paths st else (st, Inl e)
      | Inr path \<Rightarrow>
          if isdir fs path then
            (case load_directory b [] (walk fs path) st of
               (st', Inl e) \<Rightarrow> (st', Inl e)
             | (st', Inr loaded) \<Rightarrow> paths_hierarchy fs h new_context b ps (paths @ loaded) st')
          else if exists_path fs (path @ ''.'' @ NAME b) then
            (case load_file st (path @ ''.'' @ NAME b) b False of
               (st', Inl e) \<Rightarrow> (st', Inl e)
             | (st', Inr q) \<Rightarrow> paths_hierarchy fs h new_context b ps (paths @ [q]) st')
          else paths_hierarchy fs h new_context b ps paths st)"

text \<open>The outer loop \<^verbatim>\<open>for backend in list(self.backends.values())\<close>.\<close>

primrec paths_backends ::
  "filesystem \<Rightarrow> Hiera \<Rightarrow> ctx \<Rightarrow> backend list \<Rightarrow> string list \<Rightarrow> state \<Rightarrow>
   state \<times> string list result" where
  "paths_backends fs h new_context [] paths st = (st, Inr paths)"
| "paths_backends fs h new_context (b # bs) paths st =
     (case paths_hierarchy fs h new_context b (hierarchy h) paths st of
        (st', Inl e) \<Rightarrow> (st', Inl e)
      | (st', Inr paths') \<Rightarrow> paths_backends fs h new_context bs paths' st')"

text \<open>\<^verbatim>\<open>{k: v for k, v in new_context.items() if v}\<close>.\<close>

definition filter_truthy :: "ctx \<Rightarrow> ctx" where
  "filter_truthy c = (\<lambda>k. case c k of None \<Rightarrow> None | Some v \<Rightarrow> if py_truthy v then Some v else None)"

text \<open>
  \<^verbatim>\<open>Hiera.get(key, default, merge, merge_deep, throw, context, **kwargs)\<close>. The context
  argument is only read, so it is passed by value.
\<close>

definition get ::
  "filesystem \<Rightarrow> nat \<Rightarrow> Hiera \<Rightarrow> state \<Rightarrow> string option \<Rightarrow> pyval \<Rightarrow> merge_typ option \<Rightarrow> bool \<Rightarrow> bool \<Rightarrow>
   ctx \<Rightarrow> ctx \<Rightarrow> state \<times> pyval outcome" where
  "get fs n h st key dflt merge merge_deep throw context kwargs =
     (let new_context = filter_truthy (heap st (context_ref h) ++ context ++ kwargs) in
      case paths_backends fs h new_context (backends h) [] st of
        (st', Inl e) \<Rightarrow> (st', raise e)
      | (st', Inr paths) \<Rightarrow>
          (st',
           let r = get_key n (cache st') key paths new_context
                     (case merge of None \<Rightarrow> None | Some t \<Rightarrow> Some (Merge_init t merge_deep))
           in if r = raise KeyError then (if throw then raise KeyError else return dflt)
              else r))"

text \<open>
  \<^verbatim>\<open>Hiera.has(key, **kwargs)\<close> calls \<^verbatim>\<open>self.get(key, throw=True, **kwargs)\<close>. A keyword named
  \<^verbatim>\<open>key\<close> or \<^verbatim>\<open>throw\<close> is passed twice (\<^verbatim>\<open>TypeError\<close>); keywords named after the other
  parameters of \<^verbatim>\<open>get\<close> would bind to them and are outside the modelled fragment.
\<close>

definition has ::
  "filesystem \<Rightarrow> nat \<Rightarrow> Hiera \<Rightarrow> state \<Rightarrow> string option \<Rightarrow> ctx \<Rightarrow> state \<times> bool outcome" where
  "has fs n h st key kwargs =
     (if kwargs ''key'' = None \<and> kwargs ''throw'' = None then
        (if kwargs ''default'' = None \<and> kwargs ''merge'' = None \<and>
            kwargs ''merge_deep'' = None \<and> kwargs ''context'' = None
         then (case get fs n h st key PNone None False True Map.empty kwargs of
                 (st', r) \<Rightarrow>
                   (st', if r = raise KeyError then return False else obind r (\<lambda>v. return True)))
         else (st, raise Unsupported))
      else (st, raise TypeError))"

section \<open>The bound view (class ScopedHiera)\<close>

record ScopedHiera =
  hiera :: Hiera
  scoped_context_ref :: nat

text \<open>\<^verbatim>\<open>ScopedHiera.has\<close>: \<^verbatim>\<open>kwargs.update(self.context)\<close>, then \<^verbatim>\<open>self.hiera.has(key, **kwargs)\<close>.\<close>

definition ScopedHiera_has ::
  "filesystem \<Rightarrow> nat \<Rightarrow> ScopedHiera \<Rightarrow> state \<Rightarrow> string option \<Rightarrow> ctx \<Rightarrow> state \<times> bool outcome" where
  "ScopedHiera_has fs n sh st key kwargs =
     has fs n (hiera sh) st key (kwargs ++ heap st (scoped_context_ref sh))"

text \<open>\<^verbatim>\<open>ScopedHiera.get\<close>: a fresh dictionary updated with the bound context, the call's
  context and the keywords, in this order, handed to \<^verbatim>\<open>self.hiera.get\<close> as its context.\<close>

definition ScopedHiera_get ::
  "filesystem \<Rightarrow> nat \<Rightarrow> ScopedHiera \<Rightarrow> state \<Rightarrow> string option \<Rightarrow> pyval \<Rightarrow> merge_typ option \<Rightarrow> bool \<Rightarrow>
   bool \<Rightarrow> ctx \<Rightarrow> ctx \<Rightarrow> state \<times> pyval outcome" where
  "ScopedHiera_get fs n sh st key dflt merge merge_deep throw context kwargs =
     get fs n (hiera sh) st key dflt merge merge_deep throw
       (Map.empty ++ heap st (scoped_context_ref sh) ++ context ++ kwargs) Map.empty"

text \<open>
  The dictionaries created once for the default arguments \<^verbatim>\<open>context={}\<close> of
  \<^verbatim>\<open>Hiera.__init__\<close> and of \<^verbatim>\<open>Hiera.scoped\<close>.
\<close>

definition init_default_ref :: nat where
  "init_default_ref = 0"

definition scoped_default_ref :: nat where
  "scoped_default_ref = 1"

text \<open>\<^verbatim>\<open>d.update(kwargs)\<close> on the dictionary object \<open>r\<close>.\<close>

definition dict_update :: "state \<Rightarrow> nat \<Rightarrow> ctx \<Rightarrow> state" where
  "dict_update st r kwargs = st\<lparr>heap := (heap st)(r := heap st r ++ kwargs)\<rparr>"

text \<open>\<^verbatim>\<open>Hiera.scoped(context, **kwargs)\<close>; \<open>None\<close> stands for an omitted \<^verbatim>\<open>context\<close>.\<close>

definition scoped :: "Hiera \<Rightarrow> state \<Rightarrow> nat option \<Rightarrow> ctx \<Rightarrow> state \<times> ScopedHiera" where
  "scoped h st context kwargs =
     (let r = (case context of None \<Rightarrow> scoped_default_ref | Some c \<Rightarrow> c)
      in (dict_update st r kwargs, \<lparr>hiera = h, scoped_context_ref = r\<rparr>))"

section \<open>Construction (Hiera.__init__ and Hiera.load)\<close>

text \<open>
  \<^verbatim>\<open>rformat\<close> is \<^verbatim>\<open>%{(?:::|)([a-zA-Z_-|\d]+)}\<close>; the range \<^verbatim>\<open>_-|\<close> of its class spans the
  underscore, the backquote, the lower-case letters, the opening brace and the bar.
\<close>

definition is_rformat_char :: "char \<Rightarrow> bool" where
  "is_rformat_char c = (is_ascii_letter c \<or> is_digit c \<or> c \<in> set ''_`{|'')"

definition rformat_match :: "string \<Rightarrow> (string \<times> string) option" where
  "rformat_match s =
     do {
       s1 \<leftarrow> strip_prefix ''%{'' s;
       let s2 = skip_colons s1;
       let name = takeWhile is_rformat_char s2;
       rest \<leftarrow> strip_prefix ''}'' (dropWhile is_rformat_char s2);
       if name = [] then None else Some (name, rest)
     }"

text \<open>\<^verbatim>\<open>rformat.sub("{\g<1>}", path, count=0)\<close>; a path that is no string is a \<^verbatim>\<open>TypeError\<close>.\<close>

definition rformat_sub :: "pyval \<Rightarrow> string result" where
  "rformat_sub p =
     (case p of
        PStr s \<Rightarrow>
          re_sub_all rformat_match (\<lambda>g. [g])
            [CHR ''{'', CHR 0x5C, CHR ''g'', CHR ''<'', CHR ''1'', CHR ''>'', CHR ''}''] s
      | _ \<Rightarrow> Inl TypeError)"

text \<open>\<^verbatim>\<open>key in obj\<close> for a string \<^verbatim>\<open>obj\<close>: the substring test.\<close>

primrec is_substring :: "string \<Rightarrow> string \<Rightarrow> bool" where
  "is_substring k [] = (k = [])"
| "is_substring k (c # cs) = (strip_prefix k (c # cs) \<noteq> None \<or> is_substring k cs)"

text \<open>
  \<^verbatim>\<open>sym_lookup(obj, key, default)\<close> (util.py): the key, then the key with a colon in front.
  On anything but a mapping, a successful membership test is followed by a failing
  subscription.
\<close>

definition sym_lookup :: "pyval \<Rightarrow> string \<Rightarrow> pyval \<Rightarrow> pyval result" where
  "sym_lookup obj key dflt =
     (case obj of
        PDict d \<Rightarrow>
          (case map_of d key of
             Some v \<Rightarrow> Inr v
           | None \<Rightarrow> (case map_of d (CHR '':'' # key) of Some v \<Rightarrow> Inr v | None \<Rightarrow> Inr dflt))
      | PList xs \<Rightarrow>
          if py_in (PStr key) xs \<or> py_in (PStr (CHR '':'' # key)) xs then Inl TypeError else Inr dflt
      | PSet xs \<Rightarrow>
          if py_in (PStr key) xs \<or> py_in (PStr (CHR '':'' # key)) xs then Inl TypeError else Inr dflt
      | PStr s \<Rightarrow> if is_substring key s then Inl TypeError else Inr dflt
      | _ \<Rightarrow> Inl TypeError)"

text \<open>A backend class handed to the constructor: its \<^verbatim>\<open>NAME\<close> and its reading and parsing.\<close>

record backend_class =
  class_NAME :: string
  class_read_load :: "string \<Rightarrow> pyval result"

text \<open>\<^verbatim>\<open>Backend.__init__(parent, obj)\<close>; the \<^verbatim>\<open>datadir\<close> is still the raw configured value.\<close>

definition Backend_init :: "backend_class \<Rightarrow> pyval \<Rightarrow> pyval result" where
  "Backend_init cls obj =
     sym_lookup (if py_truthy obj then obj else PDict []) ''datadir''
       (PStr ''/etc/puppetlabs/code/environments/%{environment}/hieradata'')"

text \<open>\<^verbatim>\<open>self.backends[name] = instance\<close> on the ordered dictionary of backends.\<close>

primrec backends_set ::
  "(string \<times> backend_class \<times> pyval) list \<Rightarrow> string \<Rightarrow> backend_class \<times> pyval \<Rightarrow>
   (string \<times> backend_class \<times> pyval) list" where
  "backends_set [] k v = [(k, v)]"
| "backends_set (kv # d) k v = (if fst kv = k then (k, v) # d else kv # backends_set d k v)"

text \<open>The loop \<^verbatim>\<open>for backend in sym_lookup(self.base, 'backends')\<close> of \<^verbatim>\<open>Hiera.load\<close>.\<close>

primrec load_backends ::
  "backend_class list \<Rightarrow> pyval \<Rightarrow> (string \<times> backend_class \<times> pyval) list \<Rightarrow> pyval list \<Rightarrow>
   (string \<times> backend_class \<times> pyval) list result" where
  "load_backends classes base acc [] = Inr acc"
| "load_backends classes base acc (name # names) =
     (case name of
        PStr nm \<Rightarrow>
          (case filter (\<lambda>i. class_NAME i = nm) classes of
             [] \<Rightarrow> Inl GenericException
           | cls # _ \<Rightarrow>
               (case sym_lookup base nm PNone of
                  Inl e \<Rightarrow> Inl e
                | Inr obj \<Rightarrow>
                    (case Backend_init cls obj of
                       Inl e \<Rightarrow> Inl e
                     | Inr dd \<Rightarrow> load_backends classes base (backends_set acc nm (cls, dd)) names)))
      | _ \<Rightarrow> Inl GenericException)"

text \<open>The loop that rewrites the hierarchy templates.\<close>

primrec load_hierarchy :: "string list \<Rightarrow> pyval list \<Rightarrow> string list result" where
  "load_hierarchy acc [] = Inr acc"
| "load_hierarchy acc (p # ps) =
     (case rformat_sub p of Inl e \<Rightarrow> Inl e | Inr t \<Rightarrow> load_hierarchy (acc @ [t]) ps)"

text \<open>The loop that rewrites the \<^verbatim>\<open>datadir\<close> of every backend.\<close>

primrec load_datadirs ::
  "backend list \<Rightarrow> (string \<times> backend_class \<times> pyval) list \<Rightarrow> backend list result" where
  "load_datadirs acc [] = Inr acc"
| "load_datadirs acc (b # bs) =
     (case rformat_sub (snd (snd b)) of
        Inl e \<Rightarrow> Inl e
      | Inr dd \<Rightarrow>
          load_datadirs
            (acc @ [\<lparr>NAME = fst b, datadir = dd, read_load = class_read_load (fst (snd b))\<rparr>]) bs)"

text \<open>
  \<^verbatim>\<open>Hiera.load\<close>, from the parsed base configuration \<open>base\<close> and the base path the method
  determined; it ends with the preloading call \<^verbatim>\<open>self.get(None)\<close>.
\<close>

definition load ::
  "filesystem \<Rightarrow> nat \<Rightarrow> backend_class list \<Rightarrow> pyval \<Rightarrow> string \<Rightarrow> nat \<Rightarrow> state \<Rightarrow> state \<times> Hiera outcome" where
  "load fs n classes base bpath cref st =
     (if \<not> py_truthy base then (st, raise GenericException)
      else
        case (case sym_lookup base ''backends'' PNone of
                Inl e \<Rightarrow> Inl e
              | Inr names \<Rightarrow>
                  (case py_list names of
                     Inl e \<Rightarrow> Inl e
                   | Inr ns \<Rightarrow>
                       (case load_backends classes base [] ns of
                          Inl e \<Rightarrow> Inl e
                        | Inr bs \<Rightarrow>
                            if bs = [] then Inl GenericException
                            else (case sym_lookup base ''hierarchy'' PNone of
                                    Inl e \<Rightarrow> Inl e
                                  | Inr hv \<Rightarrow>
                                      if hv = PNone then Inl GenericException
                                      else (case py_list hv of
                                              Inl e \<Rightarrow> Inl e
                                            | Inr hs \<Rightarrow>
                                                (case load_hierarchy [] hs of
                                                   Inl e \<Rightarrow> Inl e
                                                 | Inr hier \<Rightarrow>
                                                     (case load_datadirs [] bs of
                                                        Inl e \<Rightarrow> Inl e
                                                      | Inr bl \<Rightarrow>
                                                          Inr \<lparr>base_path = bpath, backends = bl,
                                                               hierarchy = hier,
                                                               context_ref = cref\<rparr>)))))))
        of
          Inl e \<Rightarrow> (st, raise e)
        | Inr h \<Rightarrow>
            (case get fs n h st None PNone None False False Map.empty Map.empty of
               (st', r) \<Rightarrow> (st', obind r (\<lambda>v. return h))))"

text \<open>
  \<^verbatim>\<open>Hiera.__init__(base_config, backends, base_path, context, **kwargs)\<close>: the context
  dictionary is kept by reference and updated in place, the cache starts empty, then
  \<^verbatim>\<open>load\<close> runs. \<open>None\<close> stands for an omitted \<^verbatim>\<open>context\<close>.
\<close>

definition Hiera_init ::
  "filesystem \<Rightarrow> nat \<Rightarrow> backend_class list \<Rightarrow> pyval \<Rightarrow> string \<Rightarrow> nat option \<Rightarrow> ctx \<Rightarrow> state \<Rightarrow>
   state \<times> Hiera outcome" where
  "Hiera_init fs n classes base bpath context kwargs st =
     (let r = (case context of None \<Rightarrow> init_default_ref | Some c \<Rightarrow> c)
      in load fs n classes base bpath r ((dict_update st r kwargs)\<lparr>cache := Map.empty\<rparr>))"

section \<open>Notions used to state the properties\<close>

text \<open>
  The scan passes over a path and goes on to the next one: the document cached for the
  path is empty (\<^verbatim>\<open>None\<close>), or it is a mapping in which the lookup of the key raises
  \<^verbatim>\<open>KeyError\<close> or yields \<^verbatim>\<open>None\<close>.
\<close>

definition passed_over :: "doc_cache \<Rightarrow> string \<Rightarrow> string \<Rightarrow> bool" where
  "passed_over c k p =
     (case c p of
        Some PNone \<Rightarrow> True
      | Some (PDict d) \<Rightarrow> lookup d k = Inl KeyError \<or> lookup d k = Inr PNone
      | _ \<Rightarrow> False)"



text \<open>The text of an alias call on the key \<open>k\<close>, written with single quotes.\<close>

definition alias_call :: "string \<Rightarrow> string" where
  "alias_call k = ''%{alias('' @ [CHR 0x27] @ k @ [CHR 0x27] @ '')}''"

text \<open>A value on which the interpolation of bare variables has nothing to do: it is no
  string, or a string without bare occurrence.\<close>

definition no_markup :: "pyval \<Rightarrow> bool" where
  "no_markup v = (case v of PStr b \<Rightarrow> interpolate_findall b = [] | _ \<Rightarrow> True)"

text \<open>
  The interpolation of section 4.5, step 3, as the specification words it: every bare
  occurrence, left to right, is replaced with the value of its variable as a string, or
  with the empty string when the variable is absent.
\<close>

definition interp_value :: "ctx \<Rightarrow> string \<Rightarrow> string" where
  "interp_value c i = (case get_or_empty c i of PStr r \<Rightarrow> r | _ \<Rightarrow> [])"

function interpolate_spec :: "ctx \<Rightarrow> string \<Rightarrow> string" where
  "interpolate_spec c s =
     (case re_search interpolate_match s of
        None \<Rightarrow> s
      | Some (pre, g, rest) \<Rightarrow>
          pre @ interp_value c g @ (if length rest < length s then interpolate_spec c rest else rest))"
  by pat_completeness auto
termination
  by (relation "measure (\<lambda>(c, s). length s)") auto

text \<open>The text outside the bare occurrences of a string has no opening brace.\<close>

function outside_brace_free :: "string \<Rightarrow> bool" where
  "outside_brace_free s =
     (case re_search interpolate_match s of
        None \<Rightarrow> CHR ''{'' \<notin> set s
      | Some (pre, g, rest) \<Rightarrow>
          CHR ''{'' \<notin> set pre \<and> (if length rest < length s then outside_brace_free rest else True))"
  by pat_completeness auto
termination
  by (relation "measure length") auto

text \<open>The value substituted for a variable is a string without opening brace and without
  backslash (the empty string of an absent variable is one).\<close>

definition plain_value :: "ctx \<Rightarrow> string \<Rightarrow> bool" where
  "plain_value c i =
     (case get_or_empty c i of
        PStr r \<Rightarrow> CHR ''{'' \<notin> set r \<and> CHR 0x5C \<notin> set r
      | _ \<Rightarrow> False)"


section \<open>An example installation\<close>

text \<open>
  One backend over two data files and a file that cannot be parsed; the engine's default
  context names the environment, the role comes with each call.
\<close>

definition ex_web_items :: "(string \<times> pyval) list" where
  "ex_web_items = [(''port'', PNone), (''name'', PStr ''web-%{env}''),
                   (''servers'', PList [PStr ''a'', PStr ''b''])]"

definition ex_common_items :: "(string \<times> pyval) list" where
  "ex_common_items = [(''port'', PInt 80), (''name'', PStr ''common''),
                      (''pool'', PStr (alias_call ''servers''))]"

definition ex_read :: "string \<Rightarrow> pyval result" where
  "ex_read p =
     (if p = ''/etc/hiera/prod/web.yaml'' then Inr (PDict ex_web_items)
      else if p = ''/etc/hiera/prod/common.yaml'' then Inr (PDict ex_common_items)
      else Inl ValueError)"

definition ex_backend :: backend where
  "ex_backend = \<lparr>NAME = ''yaml'', datadir = ''{env}'', read_load = ex_read\<rparr>"

definition ex_fs :: filesystem where
  "ex_fs = \<lparr>isdir = (\<lambda>p. False),
            exists_path = (\<lambda>p. p \<in> set [''/etc/hiera/prod/web.yaml'', ''/etc/hiera/prod/common.yaml'',
                                        ''/etc/hiera/prod/broken.yaml'']),
            walk = (\<lambda>p. [])\<rparr>"

definition ex_hiera :: Hiera where
  "ex_hiera = \<lparr>base_path = ''/etc/hiera'', backends = [ex_backend],
               hierarchy = [''{role}'', ''common''], context_ref = 2\<rparr>"

definition ex_state :: state where
  "ex_state = \<lparr>heap = (\<lambda>r. if r = 2 then [''env'' \<mapsto> PStr ''prod'']
                           else if r = 3 then [''role'' \<mapsto> PStr ''web''] else Map.empty),
               cache = Map.empty, reads = []\<rparr>"

definition ex_scoped :: ScopedHiera where
  "ex_scoped = \<lparr>hiera = ex_hiera, scoped_context_ref = 3\<rparr>"

text \<open>The context of a call with \<^verbatim>\<open>role='web'\<close>, the state after its files are loaded, and
  its candidate paths.\<close>

definition ex_ctx :: ctx where
  "ex_ctx = filter_truthy (heap ex_state (context_ref ex_hiera) ++ Map.empty ++ [''role'' \<mapsto> PStr ''web''])"

definition ex_loaded :: state where
  "ex_loaded = fst (paths_backends ex_fs ex_hiera ex_ctx (backends ex_hiera) [] ex_state)"

definition ex_paths :: "string list" where
  "ex_paths = [''/etc/hiera/prod/web.yaml'', ''/etc/hiera/prod/common.yaml'']"

text \<open>The same installation with a hierarchy level whose file cannot be parsed.\<close>

definition ex_hiera_broken :: Hiera where
  "ex_hiera_broken = ex_hiera\<lparr>hierarchy := [''common'', ''broken'']\<rparr>"

text \<open>The same installation with a directory as a hierarchy level: the first file of the
  directory loads, the second cannot be parsed.\<close>

definition ex_read_dir :: "string \<Rightarrow> pyval result" where
  "ex_read_dir p =
     (if p = ''/etc/hiera/prod/conf.d/a.yaml'' then Inr (PDict [(''name'', PStr ''a'')])
      else ex_read p)"

definition ex_backend_dir :: backend where
  "ex_backend_dir = ex_backend\<lparr>read_load := ex_read_dir\<rparr>"

definition ex_fs_dir :: filesystem where
  "ex_fs_dir = ex_fs\<lparr>isdir := (\<lambda>p. p = ''/etc/hiera/prod/conf.d''),
                     walk := (\<lambda>p. if p = ''/etc/hiera/prod/conf.d''
                                   then [''/etc/hiera/prod/conf.d/a.yaml'', ''/etc/hiera/prod/conf.d/b.yaml'']
                                   else [])\<rparr>"

definition ex_hiera_dir :: Hiera where
  "ex_hiera_dir = ex_hiera\<lparr>backends := [ex_backend_dir], hierarchy := [''common'', ''conf.d'']\<rparr>"

text \<open>A base configuration for the constructor, and the engine it builds.\<close>

definition ex_base :: pyval where
  "ex_base = PDict [(''backends'', PList [PStr ''yaml'']),
                    (''yaml'', PDict [(''datadir'', PStr ''%{env}'')]),
                    (''hierarchy'', PList [PStr ''%{role}'', PStr ''common''])]"

definition ex_class :: backend_class where
  "ex_class = \<lparr>class_NAME = ''yaml'', class_read_load = ex_read\<rparr>"

definition ex_built :: Hiera where
  "ex_built =
     (case snd (Hiera_init ex_fs 1 [ex_class] ex_base ''/etc/hiera'' (Some 5)
                  [''env'' \<mapsto> PStr ''prod''] ex_state) of
        Some (Inr h) \<Rightarrow> h
      | _ \<Rightarrow> ex_hiera)"

section \<open>Properties\<close>

subsection \<open>Deep merge of sequences\<close>

lemma map_of_dict_set: "map_of (dict_set d k v) k' = (if k' = k then Some v else map_of d k')"
  by (induction d) auto

lemma deep_merge_items_other:
  "k \<notin> fst ` set e \<Longrightarrow> map_of (deep_merge_items r e) k = map_of r k"
proof (induction e arbitrary: r)
  case Nil
  then show ?case by simp
next
  case (Cons kv e)
  then have ne: "k \<noteq> fst kv" and notin: "k \<notin> fst ` set e" by auto
  show ?case
    using Cons.IH [OF notin] ne
    by (simp add: map_of_dict_set split: option.splits pyval.splits)
qed

lemma deep_merge_items_list:
  assumes "distinct (map fst e)" and "map_of r k = Some (PList xs)" and "map_of e k = Some v"
  shows "map_of (deep_merge_items r e) k =
           Some (PList (case v of PList ys \<Rightarrow> xs @ filter (\<lambda>y. \<not> py_in y xs) ys | _ \<Rightarrow> xs @ [v]))"
  using assms
proof (induction e arbitrary: r)
  case Nil
  then show ?case by simp
next
  case (Cons kv e)
  show ?case
  proof (cases "fst kv = k")
    case True
    with Cons.prems have v: "snd kv = v" and notin: "k \<notin> fst ` set e" by auto
    show ?thesis
      using True v Cons.prems(2) deep_merge_items_other [OF notin]
      by (cases v) (simp_all add: map_of_dict_set)
  next
    case False
    with Cons.prems have d: "distinct (map fst e)" and m: "map_of e k = Some v" by auto
    define r' where "r' = (case map_of r (fst kv) of
          Some (PDict q) \<Rightarrow> dict_set r (fst kv) (deep_merge q (snd kv))
        | Some (PList zs) \<Rightarrow>
            (case snd kv of
               PList ys \<Rightarrow> dict_set r (fst kv) (PList (zs @ filter (\<lambda>y. \<not> py_in y zs) ys))
             | w \<Rightarrow> dict_set r (fst kv) (PList (zs @ [w])))
        | _ \<Rightarrow> dict_set r (fst kv) (snd kv))"
    have same: "map_of r' k = map_of r k"
      unfolding r'_def using False
      by (simp add: map_of_dict_set split: option.splits pyval.splits)
    have step: "deep_merge_items r (kv # e) = deep_merge_items r' e"
      unfolding r'_def by simp
    show ?thesis
      unfolding step using Cons.IH [OF d _ m, of r'] same Cons.prems(2) by simp
  qed
qed

text \<open>
  Claim C5. When a key maps to a sequence on the accumulator side of the deep merge and
  the new mapping has that key too: a new sequence contributes, after the accumulator's
  elements in their order, exactly its elements that are not equal (Python \<^verbatim>\<open>==\<close>) to an
  element of the accumulator sequence; any other new value is appended as one element.
  In particular \<^verbatim>\<open>deep_merge({list:[1,2]}, {list:[2,3]}) = {list:[1,2,3]}\<close>.
\<close>

theorem deep_merge_list_dedup:
  assumes "distinct (map fst b)" and "map_of a k = Some (PList xs)" and "map_of b k = Some v"
  shows "(\<exists>r. deep_merge a (PDict b) = PDict r \<and>
              map_of r k = Some (PList (case v of PList ys \<Rightarrow> xs @ filter (\<lambda>y. \<not> py_in y xs) ys
                                          | _ \<Rightarrow> xs @ [v]))) \<and>
         deep_merge [(''list'', PList [PInt 1, PInt 2])] (PDict [(''list'', PList [PInt 2, PInt 3])])
           = PDict [(''list'', PList [PInt 1, PInt 2, PInt 3])]"
proof
  show "\<exists>r. deep_merge a (PDict b) = PDict r \<and>
              map_of r k = Some (PList (case v of PList ys \<Rightarrow> xs @ filter (\<lambda>y. \<not> py_in y xs) ys
                                          | _ \<Rightarrow> xs @ [v]))"
    using deep_merge_items_list [OF assms] by simp
  show "deep_merge [(''list'', PList [PInt 1, PInt 2])] (PDict [(''list'', PList [PInt 2, PInt 3])])
           = PDict [(''list'', PList [PInt 1, PInt 2, PInt 3])]"
    by (simp add: py_in_def)
qed

theorem deep_merge_list_dedup_witness:
  "distinct (map fst [(''x'', PInt 0), (''list'', PInt 100000)]) \<and>
   map_of [(''list'', PList [PInt (-1), PInt 8])] ''list'' = Some (PList [PInt (-1), PInt 8]) \<and>
   map_of [(''x'', PInt 0), (''list'', PInt 100000)] ''list'' = Some (PInt 100000) \<and>
   (\<exists>r. deep_merge [(''list'', PList [PInt (-1), PInt 8])]
              (PDict [(''x'', PInt 0), (''list'', PInt 100000)]) = PDict r \<and>
        map_of r ''list'' = Some (PList [PInt (-1), PInt 8, PInt 100000]))"
proof -
  have h1: "distinct (map fst [(''x'', PInt 0), (''list'', PInt 100000)])" by simp
  have h2: "map_of [(''list'', PList [PInt (-1), PInt 8])] ''list'' = Some (PList [PInt (-1), PInt 8])"
    by simp
  have h3: "map_of [(''x'', PInt 0), (''list'', PInt 100000)] ''list'' = Some (PInt 100000)"
    by simp
  from deep_merge_list_dedup [OF h1 h2 h3] show ?thesis
    using h1 h2 h3 by simp
qed

subsection \<open>Dotted lookup\<close>

text \<open>
  Claim C3. The document lookup does not answer every missing path segment with the
  not-found signal. In the first document of the example an index out of range over the
  sequence \<^verbatim>\<open>servers\<close> raises \<^verbatim>\<open>IndexError\<close>, a segment over it that is no number raises
  \<^verbatim>\<open>ValueError\<close>, and a segment applied to a string or to \<^verbatim>\<open>None\<close> raises \<^verbatim>\<open>TypeError\<close>; only a
  segment missing from a mapping raises \<^verbatim>\<open>KeyError\<close>. The key lookup of the engine catches
  \<^verbatim>\<open>KeyError\<close> alone: the other exceptions leave it, a document that is no mapping has no
  lookup at all (\<^verbatim>\<open>AttributeError\<close>), and \<^verbatim>\<open>has\<close>, documented to answer false for a key that
  does not exist, raises \<^verbatim>\<open>IndexError\<close> for \<^verbatim>\<open>servers.7\<close> where it answers false for a missing
  top-level key.
\<close>

theorem lookup_crash_on_absent_segment:
  "lookup ex_web_items ''servers.7'' = Inl IndexError \<and>
   lookup ex_web_items ''servers.first'' = Inl ValueError \<and>
   lookup ex_web_items ''name.first'' = Inl TypeError \<and>
   lookup ex_web_items ''port.low'' = Inl TypeError \<and>
   lookup ex_web_items ''owner'' = Inl KeyError \<and>
   get_key 1 (cache ex_loaded) (Some ''servers.7'') ex_paths ex_ctx None = raise IndexError \<and>
   get_key 1 (cache ex_loaded) (Some ''servers.first'') ex_paths ex_ctx None = raise ValueError \<and>
   get_key 1 (cache ex_loaded) (Some ''name.first'') ex_paths ex_ctx None = raise TypeError \<and>
   get_key 1 [''p'' \<mapsto> PList [PStr ''a'']] (Some ''servers'') [''p''] Map.empty None
     = raise AttributeError \<and>
   snd (has ex_fs 1 ex_hiera ex_state (Some ''servers.7'') [''role'' \<mapsto> PStr ''web''])
     = raise IndexError \<and>
   snd (has ex_fs 1 ex_hiera ex_state (Some ''owner'') [''role'' \<mapsto> PStr ''web''])
     = return False"
  by code_simp

subsection \<open>The loops over backends, hierarchy levels and paths\<close>

lemma load_file_heap: "heap (fst (load_file st p b ig)) = heap st"
  by (simp add: load_file_def split: sum.splits)

lemma load_directory_heap: "heap (fst (load_directory b l fl st)) = heap st"
proof (induction fl arbitrary: l st)
  case Nil
  then show ?case by simp
next
  case (Cons f fl)
  show ?case
  proof (cases "load_file st f b False")
    case (Pair st' r)
    then have h: "heap st' = heap st" using load_file_heap [of st f b False] by simp
    show ?thesis using Pair h Cons.IH by (cases r) simp_all
  qed
qed

lemma paths_hierarchy_heap: "heap (fst (paths_hierarchy fs h c b ps paths st)) = heap st"
proof (induction ps arbitrary: paths st)
  case Nil
  then show ?case by simp
next
  case (Cons p ps)
  show ?case
  proof (cases "render_path h c b p")
    case (Inl e)
    then show ?thesis using Cons.IH by simp
  next
    case (Inr path)
    show ?thesis
    proof (cases "isdir fs path")
      case True
      obtain st' r where ld: "load_directory b [] (walk fs path) st = (st', r)"
        by (cases "load_directory b [] (walk fs path) st")
      then have h: "heap st' = heap st" using load_directory_heap [of b "[]" "walk fs path" st] by simp
      show ?thesis using Inr True ld h Cons.IH by (cases r) simp_all
    next
      case False
      show ?thesis
      proof (cases "exists_path fs (path @ ''.'' @ NAME b)")
        case True
        obtain st' r where lf: "load_file st (path @ ''.'' @ NAME b) b False = (st', r)"
          by (cases "load_file st (path @ ''.'' @ NAME b) b False")
        then have h: "heap st' = heap st"
          using load_file_heap [of st "path @ ''.'' @ NAME b" b False] by simp
        show ?thesis using Inr False True lf h Cons.IH by (cases r) simp_all
      next
        case F2: False
        show ?thesis using Inr False F2 Cons.IH by simp
      qed
    qed
  qed
qed

lemma paths_backends_heap: "heap (fst (paths_backends fs h c bs paths st)) = heap st"
proof (induction bs arbitrary: paths st)
  case Nil
  then show ?case by simp
next
  case (Cons b bs)
  obtain st' r where ph: "paths_hierarchy fs h c b (hierarchy h) paths st = (st', r)"
    by (cases "paths_hierarchy fs h c b (hierarchy h) paths st")
  then have hp: "heap st' = heap st"
    using paths_hierarchy_heap [of fs h c b "hierarchy h" paths st] by simp
  show ?case using ph hp Cons.IH by (cases r) simp_all
qed

lemma get_heap: "heap (fst (get fs n h st key dflt merge md throw c kw)) = heap st"
proof -
  let ?c = "filter_truthy (heap st (context_ref h) ++ c ++ kw)"
  obtain st' r where pb: "paths_backends fs h ?c (backends h) [] st = (st', r)"
    by (cases "paths_backends fs h ?c (backends h) [] st")
  then have hp: "heap st' = heap st"
    using paths_backends_heap [of fs h ?c "backends h" "[]" st] by simp
  show ?thesis using pb hp by (cases r) (simp_all add: get_def Let_def)
qed

lemma load_heap: "heap (fst (load fs n classes base bpath cref st)) = heap st"
  using get_heap
  by (auto simp: load_def split: sum.splits prod.splits if_splits) (metis fst_conv)

lemma load_context_ref:
  "load fs n classes base bpath cref st = (st', Some (Inr h)) \<Longrightarrow> context_ref h = cref"
  by (auto simp: load_def obind_def return_def raise_def split: sum.splits prod.splits if_splits option.splits)

lemma paths_hierarchy_append:
  "paths_hierarchy fs h c b (xs @ ys) paths st =
     (case paths_hierarchy fs h c b xs paths st of
        (st1, Inl e) \<Rightarrow> (st1, Inl e)
      | (st1, Inr p1) \<Rightarrow> paths_hierarchy fs h c b ys p1 st1)"
  by (induction xs arbitrary: paths st) (auto split: sum.splits prod.splits)

lemma paths_backends_append:
  "paths_backends fs h c (xs @ ys) paths st =
     (case paths_backends fs h c xs paths st of
        (st1, Inl e) \<Rightarrow> (st1, Inl e)
      | (st1, Inr p1) \<Rightarrow> paths_backends fs h c ys p1 st1)"
  by (induction xs arbitrary: paths st) (auto split: sum.splits prod.splits)

lemma load_file_cached: "cache st path = Some doc \<Longrightarrow> load_file st path b False = (st, Inr path)"
  by (simp add: load_file_def)

lemma load_file_fails:
  "cache st path = None \<or> ig \<Longrightarrow> read_load b path = Inl e \<Longrightarrow>
   load_file st path b ig = (st\<lparr>reads := reads st @ [path]\<rparr>, Inl (LoadFailure path e))"
  by (auto simp: load_file_def)

lemma get_aborts_on_load_failure:
  assumes nc: "new_context = filter_truthy (heap st (context_ref h) ++ c ++ kw)"
    and bs: "backends h = bs1 @ b # bs2"
    and pre_b: "paths_backends fs h new_context bs1 [] st
                  = (st1, Inr paths1)"
    and lv: "hierarchy h = lv1 @ p # lv2"
    and pre_l: "paths_hierarchy fs h new_context b lv1 paths1 st1
                  = (st2, Inr paths2)"
    and rp: "render_path h new_context b p = Inr path"
    and nd: "\<not> isdir fs path"
    and ex: "exists_path fs (path @ ''.'' @ NAME b)"
    and miss: "cache st2 (path @ ''.'' @ NAME b) = None"
    and fail: "read_load b (path @ ''.'' @ NAME b) = Inl e"
  shows "get fs n h st key dflt merge md throw c kw =
           (st2\<lparr>reads := reads st2 @ [path @ ''.'' @ NAME b]\<rparr>,
            raise (LoadFailure (path @ ''.'' @ NAME b) e))"
proof -
  let ?c = "new_context"
  let ?f = "path @ ''.'' @ NAME b"
  have lf: "load_file st2 ?f b False = (st2\<lparr>reads := reads st2 @ [?f]\<rparr>, Inl (LoadFailure ?f e))"
    using load_file_fails [of st2 ?f False b e] miss fail by simp
  have step: "paths_hierarchy fs h ?c b (p # lv2) paths2 st2
                = (st2\<lparr>reads := reads st2 @ [?f]\<rparr>, Inl (LoadFailure ?f e))"
    using rp nd ex lf by simp
  have hier: "paths_hierarchy fs h ?c b (hierarchy h) paths1 st1
                = (st2\<lparr>reads := reads st2 @ [?f]\<rparr>, Inl (LoadFailure ?f e))"
    unfolding lv paths_hierarchy_append using pre_l step by simp
  have "paths_backends fs h ?c (b # bs2) paths1 st1
          = (st2\<lparr>reads := reads st2 @ [?f]\<rparr>, Inl (LoadFailure ?f e))"
    using hier by simp
  then have "paths_backends fs h ?c (backends h) [] st
          = (st2\<lparr>reads := reads st2 @ [?f]\<rparr>, Inl (LoadFailure ?f e))"
    unfolding bs paths_backends_append using pre_b by simp
  then show ?thesis unfolding nc by (simp add: get_def Let_def)
qed

lemma load_file_stores:
  "cache st path = None \<or> ig \<Longrightarrow> read_load b path = Inr doc \<Longrightarrow>
   load_file st path b ig
     = (st\<lparr>cache := (cache st)(path \<mapsto> doc), reads := reads st @ [path]\<rparr>, Inr path)"
  by (auto simp: load_file_def)

lemma load_directory_append:
  "load_directory b l (xs @ ys) st =
     (case load_directory b l xs st of
        (st1, Inl e) \<Rightarrow> (st1, Inl e)
      | (st1, Inr l1) \<Rightarrow> load_directory b l1 ys st1)"
  by (induction xs arbitrary: l st) (auto split: sum.splits prod.splits)

lemma get_aborts_on_directory_failure:
  assumes nc: "new_context = filter_truthy (heap st (context_ref h) ++ c ++ kw)"
    and bs: "backends h = bs1 @ b # bs2"
    and pre_b: "paths_backends fs h new_context bs1 [] st
                  = (st1, Inr paths1)"
    and lv: "hierarchy h = lv1 @ p # lv2"
    and pre_l: "paths_hierarchy fs h new_context b lv1 paths1 st1
                  = (st2, Inr paths2)"
    and rp: "render_path h new_context b p = Inr path"
    and isd: "isdir fs path"
    and wk: "walk fs path = fl1 @ f # fl2"
    and pre_f: "load_directory b [] fl1 st2 = (st3, Inr loaded)"
    and miss: "cache st3 f = None"
    and fail: "read_load b f = Inl e"
  shows "get fs n h st key dflt merge md throw c kw =
           (st3\<lparr>reads := reads st3 @ [f]\<rparr>, raise (LoadFailure f e))"
proof -
  let ?c = "new_context"
  let ?out = "(st3\<lparr>reads := reads st3 @ [f]\<rparr>, Inl (LoadFailure f e))"
  have lf: "load_file st3 f b False = (st3\<lparr>reads := reads st3 @ [f]\<rparr>, Inl (LoadFailure f e))"
    using load_file_fails [of st3 f False b e] miss fail by simp
  have "load_directory b loaded (f # fl2) st3 = ?out"
    using lf by simp
  then have ld: "load_directory b [] (walk fs path) st2 = ?out"
    unfolding wk load_directory_append using pre_f by simp
  have step: "paths_hierarchy fs h ?c b (p # lv2) paths2 st2 = ?out"
    using rp isd ld by simp
  have hier: "paths_hierarchy fs h ?c b (hierarchy h) paths1 st1 = ?out"
    unfolding lv paths_hierarchy_append using pre_l step by simp
  have "paths_backends fs h ?c (b # bs2) paths1 st1 = ?out"
    using hier by simp
  then have "paths_backends fs h ?c (backends h) [] st = ?out"
    unfolding bs paths_backends_append using pre_b by simp
  then show ?thesis unfolding nc by (simp add: get_def Let_def)
qed





lemma get_key_paths_passed_over:
  "passed_over dc k p \<Longrightarrow>
   get_key_paths rs dc (Some k) merge merges (p # paths)
     = get_key_paths rs dc (Some k) merge merges paths"
  by (auto simp: passed_over_def split: option.splits pyval.splits)

lemma get_key_paths_all_passed_over:
  "\<forall>p\<in>set paths. passed_over dc k p \<Longrightarrow>
   get_key_paths rs dc (Some k) merge None paths = raise KeyError"
proof (induction paths)
  case Nil
  then show ?case by (simp split: option.splits)
next
  case (Cons p paths)
  then show ?case using get_key_paths_passed_over [of dc k p] by simp
qed




subsection \<open>More fuel never changes a result\<close>

lemma obind_mono:
  assumes "a = None \<or> a = a'" and "\<And>v. f v = None \<or> f v = f' v"
  shows "obind a f = None \<or> obind a f = obind a' f'"
  using assms by (auto simp: obind_def split: option.splits sum.splits)

lemma resolve_dict_mono:
  assumes "\<And>v. rs v = None \<or> rs v = rs' v"
  shows "resolve_dict rs acc d = None \<or> resolve_dict rs acc d = resolve_dict rs' acc d"
proof (induction d arbitrary: acc)
  case Nil
  then show ?case by simp
next
  case (Cons kv d)
  show ?case
    unfolding resolve_dict.simps
    by (rule obind_mono [OF assms]) (rule Cons.IH)
qed

lemma resolve_list_mono:
  assumes "\<And>v. rs v = None \<or> rs v = rs' v"
  shows "resolve_list rs acc xs = None \<or> resolve_list rs acc xs = resolve_list rs' acc xs"
proof (induction xs arbitrary: acc)
  case Nil
  then show ?case by simp
next
  case (Cons x xs)
  show ?case
    unfolding resolve_list.simps
    by (rule obind_mono [OF assms]) (rule Cons.IH)
qed

lemma resolve_calls_mono:
  assumes "\<And>k. gk k = None \<or> gk k = gk' k"
  shows "resolve_calls gk c s calls = None \<or> resolve_calls gk c s calls = resolve_calls gk' c s calls"
proof (induction calls arbitrary: s)
  case Nil
  then show ?case by simp
next
  case (Cons ca calls)
  have first: "\<And>x y. (if fst ca = ''hiera'' \<or> fst ca = ''lookup'' then gk (snd ca) else x) = None \<or>
      (if fst ca = ''hiera'' \<or> fst ca = ''lookup'' then gk (snd ca) else x)
        = (if fst ca = ''hiera'' \<or> fst ca = ''lookup'' then gk' (snd ca) else x)"
    using assms [of "snd ca"] by auto
  show ?case
    unfolding resolve_calls.simps
  proof (rule obind_mono [OF first])
    fix replace
    show "(if \<not> py_truthy replace then raise GenericException
           else case replace of
                  PStr r \<Rightarrow> obind (lift (function_sub1_val r s)) (\<lambda>s'. resolve_calls gk c (PStr s') calls)
                | _ \<Rightarrow> if fst ca = ''scope'' then resolve_calls gk c replace calls
                       else raise GenericException) = None \<or>
          (if \<not> py_truthy replace then raise GenericException
           else case replace of
                  PStr r \<Rightarrow> obind (lift (function_sub1_val r s)) (\<lambda>s'. resolve_calls gk c (PStr s') calls)
                | _ \<Rightarrow> if fst ca = ''scope'' then resolve_calls gk c replace calls
                       else raise GenericException)
          = (if \<not> py_truthy replace then raise GenericException
           else case replace of
                  PStr r \<Rightarrow> obind (lift (function_sub1_val r s)) (\<lambda>s'. resolve_calls gk' c (PStr s') calls)
                | _ \<Rightarrow> if fst ca = ''scope'' then resolve_calls gk' c replace calls
                       else raise GenericException)"
    proof (cases replace)
      case (PStr r)
      have "obind (lift (function_sub1_val r s)) (\<lambda>s'. resolve_calls gk c (PStr s') calls) = None \<or>
            obind (lift (function_sub1_val r s)) (\<lambda>s'. resolve_calls gk c (PStr s') calls)
              = obind (lift (function_sub1_val r s)) (\<lambda>s'. resolve_calls gk' c (PStr s') calls)"
        by (rule obind_mono) (simp, rule Cons.IH)
      with PStr show ?thesis by simp
    qed (use Cons.IH in \<open>auto\<close>)
  qed
qed

lemma get_key_paths_mono:
  assumes "\<And>m v. rs m v = None \<or> rs m v = rs' m v"
  shows "get_key_paths rs dc key merge merges paths = None \<or>
         get_key_paths rs dc key merge merges paths = get_key_paths rs' dc key merge merges paths"
proof (induction paths arbitrary: merges)
  case Nil
  then show ?case by simp
next
  case (Cons p paths)
  note ih = Cons.IH
  show ?case
  proof (cases "dc p")
    case None
    then show ?thesis by simp
  next
    case (Some doc)
    show ?thesis
    proof (cases key)
      case None
      with Some ih show ?thesis by simp
    next
      case k: (Some k)
      show ?thesis
      proof (cases doc)
        case (PDict d)
        show ?thesis
        proof (cases "lookup d k")
          case (Inl e)
          with Some k PDict ih show ?thesis by simp
        next
          case (Inr found)
          show ?thesis
          proof (cases "found = PNone")
            case True
            with Some k PDict Inr ih show ?thesis by simp
          next
            case False
            show ?thesis
            proof (cases merge)
              case None
              with Some k PDict Inr False assms show ?thesis by simp
            next
              case m: (Some m)
              define acc where "acc = (case merges of None \<Rightarrow> Merge_init (mtyp m) (deep m) | Some a \<Rightarrow> a)"
              have "obind (rs (if deep m then Some acc else merge) found)
                      (\<lambda>v. obind (lift (merge_value acc v))
                         (\<lambda>acc'. get_key_paths rs dc key merge (Some acc') paths)) = None \<or>
                    obind (rs (if deep m then Some acc else merge) found)
                      (\<lambda>v. obind (lift (merge_value acc v))
                         (\<lambda>acc'. get_key_paths rs dc key merge (Some acc') paths))
                    = obind (rs' (if deep m then Some acc else merge) found)
                      (\<lambda>v. obind (lift (merge_value acc v))
                         (\<lambda>acc'. get_key_paths rs' dc key merge (Some acc') paths))"
                by (rule obind_mono [OF assms], rule obind_mono, simp, rule ih)
              with Some k PDict Inr False m show ?thesis
                by (cases "deep m") (simp_all add: acc_def Let_def)
            qed
          qed
        qed
      qed (use Some k ih in \<open>simp_all\<close>)
    qed
  qed
qed

lemma resolve_body_mono:
  assumes "\<And>v. rs v = None \<or> rs v = rs' v" and "\<And>t. rf t = None \<or> rf t = rf' t"
  shows "resolve_body rs rf s c = None \<or> resolve_body rs rf s c = resolve_body rs' rf' s c"
proof (cases s)
  case (PDict d)
  then show ?thesis using resolve_dict_mono [OF assms(1)] by (simp add: resolve_body_def)
next
  case (PList xs)
  then show ?thesis using resolve_list_mono [OF assms(1)] by (simp add: resolve_body_def)
next
  case (PStr t)
  have "obind (rf t) (\<lambda>base. case base of
                            PStr b \<Rightarrow> obind (lift (resolve_interpolates b c)) (\<lambda>r. return (PStr r))
                          | _ \<Rightarrow> return base) = None \<or>
        obind (rf t) (\<lambda>base. case base of
                            PStr b \<Rightarrow> obind (lift (resolve_interpolates b c)) (\<lambda>r. return (PStr r))
                          | _ \<Rightarrow> return base)
        = obind (rf' t) (\<lambda>base. case base of
                            PStr b \<Rightarrow> obind (lift (resolve_interpolates b c)) (\<lambda>r. return (PStr r))
                          | _ \<Rightarrow> return base)"
    by (rule obind_mono [OF assms(2)]) simp
  with PStr show ?thesis by (simp add: resolve_body_def)
qed (simp_all add: resolve_body_def)

lemma resolve_function_body_mono:
  assumes "\<And>k. gk k = None \<or> gk k = gk' k"
  shows "resolve_function_body gk s c = None \<or>
         resolve_function_body gk s c = resolve_function_body gk' s c"
proof (cases "length (function_findall s) = 1 \<and> fst (hd (function_findall s)) = ''alias''")
  case True
  have inner: "\<And>r. (if r \<noteq> [] then raise GenericException
                else (let v = gk (snd (hd (function_findall s)))
                      in if v = raise KeyError then raise InterpolationError else v)) = None \<or>
        (if r \<noteq> [] then raise GenericException
                else (let v = gk (snd (hd (function_findall s)))
                      in if v = raise KeyError then raise InterpolationError else v))
        = (if r \<noteq> [] then raise GenericException
                else (let v = gk' (snd (hd (function_findall s)))
                      in if v = raise KeyError then raise InterpolationError else v))"
    using assms [of "snd (hd (function_findall s))"] by (auto simp: Let_def raise_def)
  have "obind (lift (function_sub_all [] s))
          (\<lambda>r. if r \<noteq> [] then raise GenericException
                else (let v = gk (snd (hd (function_findall s)))
                      in if v = raise KeyError then raise InterpolationError else v)) = None \<or>
        obind (lift (function_sub_all [] s))
          (\<lambda>r. if r \<noteq> [] then raise GenericException
                else (let v = gk (snd (hd (function_findall s)))
                      in if v = raise KeyError then raise InterpolationError else v))
        = obind (lift (function_sub_all [] s))
          (\<lambda>r. if r \<noteq> [] then raise GenericException
                else (let v = gk' (snd (hd (function_findall s)))
                      in if v = raise KeyError then raise InterpolationError else v))"
    by (rule obind_mono) (simp, rule inner)
  with True show ?thesis by (simp add: resolve_function_body_def Let_def)
next
  case False
  then show ?thesis
    using resolve_calls_mono [OF assms, where c = c and s = "PStr s" and calls = "function_findall s"]
    by (auto simp: resolve_function_body_def Let_def)
qed

lemma fuel_step:
  "(get_key n dc key paths c m = None \<or> get_key n dc key paths c m = get_key (Suc n) dc key paths c m) \<and>
   (resolve n dc v paths c m = None \<or> resolve n dc v paths c m = resolve (Suc n) dc v paths c m) \<and>
   (resolve_function n dc s paths c m = None \<or>
      resolve_function n dc s paths c m = resolve_function (Suc n) dc s paths c m)"
proof (induction n arbitrary: key v s m)
  case 0
  show ?case by simp
next
  case (Suc n)
  have gk: "\<And>key m. get_key n dc key paths c m = None \<or>
              get_key n dc key paths c m = get_key (Suc n) dc key paths c m"
    and rs: "\<And>v m. resolve n dc v paths c m = None \<or>
              resolve n dc v paths c m = resolve (Suc n) dc v paths c m"
    and rf: "\<And>s m. resolve_function n dc s paths c m = None \<or>
              resolve_function n dc s paths c m = resolve_function (Suc n) dc s paths c m"
    using Suc.IH by blast+
  have a: "get_key (Suc n) dc key paths c m = None \<or>
           get_key (Suc n) dc key paths c m = get_key (Suc (Suc n)) dc key paths c m"
    unfolding get_key.simps(2) [of n dc key paths c m] get_key.simps(2) [of "Suc n" dc key paths c m]
    by (rule get_key_paths_mono) (rule rs)
  have b: "resolve (Suc n) dc v paths c m = None \<or>
           resolve (Suc n) dc v paths c m = resolve (Suc (Suc n)) dc v paths c m"
    unfolding resolve.simps(2) [of n dc v paths c m] resolve.simps(2) [of "Suc n" dc v paths c m]
    by (rule resolve_body_mono) (rule rs, rule rf)
  have d: "resolve_function (Suc n) dc s paths c m = None \<or>
           resolve_function (Suc n) dc s paths c m = resolve_function (Suc (Suc n)) dc s paths c m"
    unfolding resolve_function.simps(2) [of n dc s paths c m]
      resolve_function.simps(2) [of "Suc n" dc s paths c m]
    by (rule resolve_function_body_mono) (rule gk)
  from a b d show ?case by blast
qed

lemma get_key_more_fuel:
  "get_key n dc key paths c m = Some r \<Longrightarrow> get_key (n + k) dc key paths c m = Some r"
proof (induction k)
  case 0
  then show ?case by simp
next
  case (Suc k)
  then show ?case using fuel_step [of "n + k" dc key paths c m] by auto
qed


subsection \<open>First match\<close>




subsection \<open>Not found\<close>

lemma get_not_found:
  assumes nc: "new_context = filter_truthy (heap st (context_ref h) ++ c ++ kw)"
    and pb: "paths_backends fs h new_context (backends h) [] st = (st', Inr paths)"
    and absent: "\<forall>p\<in>set paths. passed_over (cache st') k p"
  shows "get fs (Suc n) h st (Some k) dflt merge md throw c kw
           = (st', if throw then raise KeyError else return dflt)"
proof -
  let ?m = "case merge of None \<Rightarrow> None | Some t \<Rightarrow> Some (Merge_init t md)"
  have gk: "get_key (Suc n) (cache st') (Some k) paths new_context ?m = raise KeyError"
    using absent get_key_paths_all_passed_over by simp
  show ?thesis
    using pb gk unfolding nc by (simp add: get_def Let_def)
qed

text \<open>
  Claim C2. The key \<^verbatim>\<open>servers.7\<close> is in no candidate document of the example: the
  first document has two servers, the second has no such entry. The call with a default
  does not return the default, with \<^verbatim>\<open>throw\<close> set it does not raise \<^verbatim>\<open>KeyError\<close>, and with a
  merge strategy it is the same: each time the \<^verbatim>\<open>IndexError\<close> of the document lookup leaves
  the call. For the key \<^verbatim>\<open>missing.key\<close>, which no mapping on the way holds, the call returns
  the default, and raises \<^verbatim>\<open>KeyError\<close> when \<^verbatim>\<open>throw\<close> is set.
\<close>

theorem default_lost_on_lookup_crash:
  "ex_paths = [''/etc/hiera/prod/web.yaml'', ''/etc/hiera/prod/common.yaml''] \<and>
   cache ex_loaded ''/etc/hiera/prod/web.yaml'' = Some (PDict ex_web_items) \<and>
   cache ex_loaded ''/etc/hiera/prod/common.yaml'' = Some (PDict ex_common_items) \<and>
   map_of ex_web_items ''servers'' = Some (PList [PStr ''a'', PStr ''b'']) \<and>
   map_of ex_common_items ''servers'' = None \<and>
   get ex_fs 1 ex_hiera ex_state (Some ''servers.7'') (PInt 42) None False False Map.empty
       [''role'' \<mapsto> PStr ''web''] = (ex_loaded, raise IndexError) \<and>
   get ex_fs 1 ex_hiera ex_state (Some ''servers.7'') (PInt 42) None False True Map.empty
       [''role'' \<mapsto> PStr ''web''] = (ex_loaded, raise IndexError) \<and>
   get ex_fs 1 ex_hiera ex_state (Some ''servers.7'') (PInt 42) (Some TList) False False Map.empty
       [''role'' \<mapsto> PStr ''web''] = (ex_loaded, raise IndexError) \<and>
   get ex_fs 1 ex_hiera ex_state (Some ''missing.key'') (PInt 42) None False False Map.empty
       [''role'' \<mapsto> PStr ''web''] = (ex_loaded, return (PInt 42)) \<and>
   get ex_fs 1 ex_hiera ex_state (Some ''missing.key'') (PInt 42) None False True Map.empty
       [''role'' \<mapsto> PStr ''web''] = (ex_loaded, raise KeyError)"
proof -
  have l: "snd (paths_backends ex_fs ex_hiera ex_ctx (backends ex_hiera) [] ex_state) = Inr ex_paths"
    by code_simp
  have st: "\<And>k d m t. fst (get ex_fs 1 ex_hiera ex_state k d m False t Map.empty [''role'' \<mapsto> PStr ''web''])
              = ex_loaded"
    using l unfolding ex_loaded_def ex_ctx_def
    by (simp add: get_def Let_def split: prod.splits sum.splits)
  have p: "ex_paths = [''/etc/hiera/prod/web.yaml'', ''/etc/hiera/prod/common.yaml'']"
    by (simp add: ex_paths_def)
  have c1: "cache ex_loaded ''/etc/hiera/prod/web.yaml'' = Some (PDict ex_web_items)" by code_simp
  have c2: "cache ex_loaded ''/etc/hiera/prod/common.yaml'' = Some (PDict ex_common_items)" by code_simp
  have m1: "map_of ex_web_items ''servers'' = Some (PList [PStr ''a'', PStr ''b''])"
    by (simp add: ex_web_items_def)
  have m2: "map_of ex_common_items ''servers'' = None" by (simp add: ex_common_items_def)
  have g1: "snd (get ex_fs 1 ex_hiera ex_state (Some ''servers.7'') (PInt 42) None False False Map.empty
       [''role'' \<mapsto> PStr ''web'']) = raise IndexError" by code_simp
  have g2: "snd (get ex_fs 1 ex_hiera ex_state (Some ''servers.7'') (PInt 42) None False True Map.empty
       [''role'' \<mapsto> PStr ''web'']) = raise IndexError" by code_simp
  have g3: "snd (get ex_fs 1 ex_hiera ex_state (Some ''servers.7'') (PInt 42) (Some TList) False False
       Map.empty [''role'' \<mapsto> PStr ''web'']) = raise IndexError" by code_simp
  have g4: "snd (get ex_fs 1 ex_hiera ex_state (Some ''missing.key'') (PInt 42) None False False Map.empty
       [''role'' \<mapsto> PStr ''web'']) = return (PInt 42)" by code_simp
  have g5: "snd (get ex_fs 1 ex_hiera ex_state (Some ''missing.key'') (PInt 42) None False True Map.empty
       [''role'' \<mapsto> PStr ''web'']) = raise KeyError" by code_simp
  from p c1 c2 m1 m2 g1 g2 g3 g4 g5 st show ?thesis by (simp add: prod_eq_iff)
qed

subsection \<open>Alias calls\<close>

lemma function_match_not_percent: "c \<noteq> CHR ''%'' \<Longrightarrow> function_match (c # cs) = None"
  by (simp add: function_match_def)

lemma re_search_function_percent_free:
  "CHR ''%'' \<notin> set pre \<Longrightarrow>
   re_search function_match (pre @ t)
     = map_option (\<lambda>(a, g, r). (pre @ a, g, r)) (re_search function_match t)"
proof (induction pre)
  case Nil
  show ?case by (simp add: option.map_ident map_option_case split: option.splits)
next
  case (Cons x pre)
  then have x: "x \<noteq> CHR ''%''" and pre: "CHR ''%'' \<notin> set pre" by auto
  show ?case
    using Cons.IH [OF pre] function_match_not_percent [OF x]
    by (simp add: option.map_comp comp_def split_def)
qed

lemma re_search_function_none: "CHR ''%'' \<notin> set t \<Longrightarrow> re_search function_match t = None"
  by (induction t) (auto simp: function_match_not_percent)

lemma function_match_alias_call:
  assumes "\<not> list_ex is_quote k" and "strip_prefix ''::'' k = None"
  shows "function_match (alias_call k @ post) = Some ((''alias'', k), post)"
proof -
  have nq: "\<forall>x\<in>set k. \<not> is_quote x" using assms(1) by (simp add: list_ex_iff)
  have sc: "skip_colons (k @ CHR 0x27 # CHR '')'' # CHR ''}'' # post) = k @ CHR 0x27 # CHR '')'' # CHR ''}'' # post"
  proof (cases k)
    case Nil
    then show ?thesis by (simp add: skip_colons_def)
  next
    case (Cons a k')
    show ?thesis
    proof (cases k')
      case Nil
      with Cons show ?thesis by (simp add: skip_colons_def)
    next
      case (Cons b k'')
      with \<open>k = a # k'\<close> assms(2) show ?thesis
        by (auto simp: skip_colons_def split: if_splits option.splits)
    qed
  qed
  have tw: "takeWhile (\<lambda>c. \<not> is_quote c) (k @ CHR 0x27 # CHR '')'' # CHR ''}'' # post) = k"
    using nq by (simp add: takeWhile_append2 is_quote_def)
  have dw: "dropWhile (\<lambda>c. \<not> is_quote c) (k @ CHR 0x27 # CHR '')'' # CHR ''}'' # post)
              = CHR 0x27 # CHR '')'' # CHR ''}'' # post"
    using nq by (simp add: dropWhile_append2 is_quote_def)
  have q: "is_quote (CHR 0x27)" by (simp add: is_quote_def)
  show ?thesis
    by (simp add: function_match_def alias_call_def function_names_def sc tw dw q Let_def)
qed

lemma re_search_alias_call:
  assumes "\<not> list_ex is_quote k" and "strip_prefix ''::'' k = None" and "CHR ''%'' \<notin> set pre"
  shows "re_search function_match (pre @ alias_call k @ post) = Some (pre, (''alias'', k), post)"
proof -
  have ne: "alias_call k @ post = CHR ''%'' # tl (alias_call k @ post)"
    by (simp add: alias_call_def)
  have "re_search function_match (alias_call k @ post) = Some ([], (''alias'', k), post)"
    using function_match_alias_call [OF assms(1,2), of post]
    by (subst ne, simp only: re_search.simps, subst ne [symmetric]) simp
  then show ?thesis
    using re_search_function_percent_free [OF assms(3), of "alias_call k @ post"] by simp
qed

lemma length_alias_call: "length post < length (pre @ alias_call k @ post)"
  by (simp add: alias_call_def)

lemma function_findall_alias_call:
  assumes "\<not> list_ex is_quote k" and "strip_prefix ''::'' k = None"
    and "CHR ''%'' \<notin> set pre" and "CHR ''%'' \<notin> set post"
  shows "function_findall (pre @ alias_call k @ post) = [(''alias'', k)]"
  using re_search_alias_call [OF assms(1,2,3), of post] re_search_function_none [OF assms(4)]
    length_alias_call [of post pre k]
  by (simp add: function_findall_def)

lemma function_sub_all_alias_call:
  assumes "\<not> list_ex is_quote k" and "strip_prefix ''::'' k = None"
    and "CHR ''%'' \<notin> set pre" and "CHR ''%'' \<notin> set post"
  shows "function_sub_all [] (pre @ alias_call k @ post) = Inr (pre @ post)"
  using re_search_alias_call [OF assms(1,2,3), of post] re_search_function_none [OF assms(4)]
    length_alias_call [of post pre k]
  by (simp add: function_sub_all_def template_check_def emit_def)

lemma resolve_single_alias:
  assumes fa: "function_findall s = [(''alias'', k)]" and sub: "function_sub_all [] s = Inr r"
  shows "resolve (Suc (Suc n)) dc (PStr s) paths c merge =
           (if r \<noteq> [] then raise GenericException
            else (case get_key n dc (Some k) paths c merge of
                    None \<Rightarrow> None
                  | Some (Inl e) \<Rightarrow> raise (if e = KeyError then InterpolationError else e)
                  | Some (Inr v) \<Rightarrow>
                      (case v of
                         PStr b \<Rightarrow> (case resolve_interpolates b c of
                                      Inl e \<Rightarrow> raise e
                                    | Inr t \<Rightarrow> return (PStr t))
                       | _ \<Rightarrow> return v)))"
proof -
  have cr: "can_resolve (PStr s)" using fa by (simp add: can_resolve_def)
  have rf: "resolve_function (Suc n) dc s paths c merge =
              (if r \<noteq> [] then raise GenericException
               else (let v = get_key n dc (Some k) paths c merge
                     in if v = raise KeyError then raise InterpolationError else v))"
    using fa sub by (simp add: resolve_function_body_def obind_def lift_def Let_def)
  show ?thesis
    using cr rf
    by (auto simp: resolve_body_def obind_def lift_def raise_def return_def Let_def
             split: option.splits sum.splits pyval.splits)
qed

lemma obind_assoc: "obind (obind a f) g = obind a (\<lambda>x. obind (f x) g)"
  by (auto simp: obind_def split: option.splits sum.splits)

lemma obind_raise: "obind (raise e) f = raise e"
  by (simp add: obind_def raise_def)

lemma resolve_calls_append:
  "resolve_calls gk c s (xs @ ys) = obind (resolve_calls gk c s xs) (\<lambda>s'. resolve_calls gk c s' ys)"
proof (induction xs arbitrary: s)
  case Nil
  show ?case by (simp add: obind_def return_def)
next
  case (Cons ca xs)
  show ?case
    unfolding append_Cons resolve_calls.simps obind_assoc
    by (rule arg_cong [where f = "obind _"], rule ext)
       (auto simp: Cons.IH obind_raise obind_assoc split: pyval.splits)
qed

lemma resolve_calls_alias:
  "resolve_calls gk c s ((''alias'', k) # rest) = raise GenericException"
  by (simp add: obind_raise)

lemma resolve_several_calls:
  assumes fa: "function_findall s = pre @ (''alias'', k) # rest" and more: "pre @ rest \<noteq> []"
  shows "resolve (Suc (Suc n)) dc (PStr s) paths c merge =
           obind (resolve_calls (\<lambda>arg. get_key n dc (Some arg) paths c merge) c (PStr s) pre)
             (\<lambda>s'. raise GenericException)"
proof -
  have cr: "can_resolve (PStr s)" using fa by (simp add: can_resolve_def)
  have one: "\<not> (length (function_findall s) = 1 \<and> fst (hd (function_findall s)) = ''alias'')"
    using fa more by (cases pre) auto
  have rf: "resolve_function (Suc n) dc s paths c merge =
              obind (resolve_calls (\<lambda>arg. get_key n dc (Some arg) paths c merge) c (PStr s) pre)
                (\<lambda>s'. raise GenericException)"
  proof -
    have "resolve_function (Suc n) dc s paths c merge =
            resolve_calls (\<lambda>arg. get_key n dc (Some arg) paths c merge) c (PStr s)
              (function_findall s)"
      using one by (auto simp: resolve_function_body_def Let_def)
    also have "\<dots> = obind (resolve_calls (\<lambda>arg. get_key n dc (Some arg) paths c merge) c (PStr s) pre)
                (\<lambda>s'. raise GenericException)"
      by (simp only: fa resolve_calls_append resolve_calls_alias)
    finally show ?thesis .
  qed
  have "resolve (Suc (Suc n)) dc (PStr s) paths c merge =
          obind (resolve_function (Suc n) dc s paths c merge)
            (\<lambda>base. case base of
                       PStr b \<Rightarrow> obind (lift (resolve_interpolates b c)) (\<lambda>r. return (PStr r))
                     | _ \<Rightarrow> return base)"
    using cr by (simp add: resolve_body_def del: resolve_function.simps)
  then show ?thesis
    by (simp only: rf obind_assoc obind_raise)
qed

lemma function_sub_all_empty_template: "\<exists>r. function_sub_all [] s = Inr r"
proof -
  have "\<exists>r. re_sub_all function_match function_groups [] s = Inr r"
  proof (induction s rule: length_induct)
    case (1 s)
    show ?case
    proof (cases "re_search function_match s")
      case None
      then show ?thesis by (subst re_sub_all.simps) simp
    next
      case (Some a)
      obtain pre g rest where a: "a = (pre, g, rest)" by (cases a) auto
      show ?thesis
      proof (cases "length rest < length s")
        case True
        with "1.IH" obtain r where "re_sub_all function_match function_groups [] rest = Inr r"
          by blast
        with Some a True show ?thesis
          by (subst re_sub_all.simps) (simp add: emit_def)
      next
        case False
        with Some a show ?thesis
          by (subst re_sub_all.simps) (simp add: emit_def)
      qed
    qed
  qed
  then show ?thesis by (simp add: function_sub_all_def template_check_def)
qed

text \<open>
  Claim C4. In an alias call on a key without quote character and without leading
  \<^verbatim>\<open>::\<close>, with text free of percent signs around it, the pattern of function calls finds
  that one call, and taking it out leaves the text around it. For every string in which
  the pattern finds an alias call: when it is the only call and nothing is left of the
  string without it, the string resolves to the value of the key's lookup, whatever its
  type, for a value that is no string with a bare occurrence in it, and a lookup that
  raises \<^verbatim>\<open>KeyError\<close> makes the resolution raise \<^verbatim>\<open>InterpolationError\<close>; when it is the only
  call and other text is left, the resolution raises a plain \<^verbatim>\<open>Exception\<close>; when the string
  holds further calls, the calls before the alias are resolved in their order, the first
  failure among them is raised, and with none a plain \<^verbatim>\<open>Exception\<close> is raised at the alias.
\<close>

theorem alias_resolution:
  "(\<not> list_ex is_quote k \<and> strip_prefix ''::'' k = None \<and>
    CHR ''%'' \<notin> set t1 \<and> CHR ''%'' \<notin> set t2 \<longrightarrow>
      function_findall (t1 @ alias_call k @ t2) = [(''alias'', k)] \<and>
      function_sub_all [] (t1 @ alias_call k @ t2) = Inr (t1 @ t2)) \<and>
   (function_findall s = pre @ (''alias'', k) # rest \<longrightarrow>
      (pre @ rest = [] \<and> function_sub_all [] s = Inr [] \<and>
       get_key n dc (Some k) paths c merge = return v \<and> no_markup v \<longrightarrow>
         resolve (Suc (Suc n)) dc (PStr s) paths c merge = return v) \<and>
      (pre @ rest = [] \<and> function_sub_all [] s = Inr [] \<and>
       get_key n dc (Some k) paths c merge = raise KeyError \<longrightarrow>
         resolve (Suc (Suc n)) dc (PStr s) paths c merge = raise InterpolationError) \<and>
      (pre @ rest = [] \<and> function_sub_all [] s \<noteq> Inr [] \<longrightarrow>
         resolve (Suc (Suc n)) dc (PStr s) paths c merge = raise GenericException) \<and>
      (pre @ rest \<noteq> [] \<longrightarrow>
         resolve (Suc (Suc n)) dc (PStr s) paths c merge =
           obind (resolve_calls (\<lambda>arg. get_key n dc (Some arg) paths c merge) c (PStr s) pre)
             (\<lambda>s'. raise GenericException)))"
proof (intro conjI impI)
  assume "\<not> list_ex is_quote k \<and> strip_prefix ''::'' k = None \<and>
    CHR ''%'' \<notin> set t1 \<and> CHR ''%'' \<notin> set t2"
  then show "function_findall (t1 @ alias_call k @ t2) = [(''alias'', k)]"
    and "function_sub_all [] (t1 @ alias_call k @ t2) = Inr (t1 @ t2)"
    using function_findall_alias_call [of k t1 t2] function_sub_all_alias_call [of k t1 t2]
    by simp_all
next
  assume fa: "function_findall s = pre @ (''alias'', k) # rest"
    and a: "pre @ rest = [] \<and> function_sub_all [] s = Inr [] \<and>
          get_key n dc (Some k) paths c merge = return v \<and> no_markup v"
  then have fa1: "function_findall s = [(''alias'', k)]" by simp
  from a have nm: "no_markup v" by simp
  have "resolve (Suc (Suc n)) dc (PStr s) paths c merge =
          (case v of PStr b \<Rightarrow> (case resolve_interpolates b c of Inl e \<Rightarrow> raise e
                                  | Inr t \<Rightarrow> return (PStr t))
           | _ \<Rightarrow> return v)"
    using resolve_single_alias [OF fa1, of "[]" n dc paths c merge] a
    by (simp add: return_def)
  then show "resolve (Suc (Suc n)) dc (PStr s) paths c merge = return v"
    using nm by (cases v) (simp_all add: no_markup_def resolve_interpolates_def)
next
  assume fa: "function_findall s = pre @ (''alias'', k) # rest"
    and a: "pre @ rest = [] \<and> function_sub_all [] s = Inr [] \<and>
          get_key n dc (Some k) paths c merge = raise KeyError"
  then have fa1: "function_findall s = [(''alias'', k)]" by simp
  show "resolve (Suc (Suc n)) dc (PStr s) paths c merge = raise InterpolationError"
    using resolve_single_alias [OF fa1, of "[]" n dc paths c merge] a
    by (simp add: raise_def)
next
  assume fa: "function_findall s = pre @ (''alias'', k) # rest"
    and a: "pre @ rest = [] \<and> function_sub_all [] s \<noteq> Inr []"
  then have fa1: "function_findall s = [(''alias'', k)]" by simp
  from function_sub_all_empty_template [of s] a obtain r where
    r: "function_sub_all [] s = Inr r" "r \<noteq> []" by auto
  show "resolve (Suc (Suc n)) dc (PStr s) paths c merge = raise GenericException"
    using resolve_single_alias [OF fa1 r(1), of n dc paths c merge] r(2) by simp
next
  assume fa: "function_findall s = pre @ (''alias'', k) # rest" and "pre @ rest \<noteq> []"
  then show "resolve (Suc (Suc n)) dc (PStr s) paths c merge =
              obind (resolve_calls (\<lambda>arg. get_key n dc (Some arg) paths c merge) c (PStr s) pre)
                (\<lambda>s'. raise GenericException)"
    by (intro resolve_several_calls)
qed

theorem alias_resolution_witness:
  "\<not> list_ex is_quote ''servers'' \<and> strip_prefix ''::'' ''servers'' = None \<and>
   CHR ''%'' \<notin> set ''x '' \<and> CHR ''%'' \<notin> set [] \<and>
   function_findall (''x '' @ alias_call ''servers'' @ []) = [(''alias'', ''servers'')] \<and>
   function_sub_all [] (''x '' @ alias_call ''servers'' @ []) = Inr (''x '' @ []) \<and>
   resolve (Suc (Suc 3)) (cache ex_loaded) (PStr (''x '' @ alias_call ''servers'' @ [])) ex_paths ex_ctx None
     = raise GenericException \<and>
   function_findall (alias_call ''servers'') = [] @ (''alias'', ''servers'') # [] \<and>
   function_sub_all [] (alias_call ''servers'') = Inr [] \<and>
   get_key 3 (cache ex_loaded) (Some ''servers'') ex_paths ex_ctx None
     = return (PList [PStr ''a'', PStr ''b'']) \<and>
   no_markup (PList [PStr ''a'', PStr ''b'']) \<and>
   resolve (Suc (Suc 3)) (cache ex_loaded) (PStr (alias_call ''servers'')) ex_paths ex_ctx None
     = return (PList [PStr ''a'', PStr ''b'']) \<and>
   function_findall (alias_call ''nope'') = [] @ (''alias'', ''nope'') # [] \<and>
   get_key 3 (cache ex_loaded) (Some ''nope'') ex_paths ex_ctx None = raise KeyError \<and>
   resolve (Suc (Suc 3)) (cache ex_loaded) (PStr (alias_call ''nope'')) ex_paths ex_ctx None
     = raise InterpolationError \<and>
   function_findall (''%{hiera('nope')}'' @ alias_call ''servers'')
     = [(''hiera'', ''nope'')] @ (''alias'', ''servers'') # [] \<and>
   resolve (Suc (Suc 3)) (cache ex_loaded) (PStr (''%{hiera('nope')}'' @ alias_call ''servers''))
       ex_paths ex_ctx None = raise KeyError"
proof -
  let ?dc = "cache ex_loaded"
  let ?x = "''x '' @ alias_call ''servers'' @ []"
  have q: "\<not> list_ex is_quote ''servers''" by code_simp
  have sp: "strip_prefix ''::'' ''servers'' = None" by code_simp
  have p1: "CHR ''%'' \<notin> set ''x ''" by simp
  have p0: "CHR ''%'' \<notin> set []" by simp
  have e: "[] @ [] = ([] :: (string \<times> string) list)" by simp
  note w0 = alias_resolution [where k = "''servers''" and ?t1.0 = "''x ''" and ?t2.0 = "[]",
      THEN conjunct1]
  from mp [OF w0 conjI [OF q conjI [OF sp conjI [OF p1 p0]]]]
  have f3: "function_findall ?x = [(''alias'', ''servers'')]"
    and s3: "function_sub_all [] ?x = Inr (''x '' @ [])" by blast+
  from f3 have f3': "function_findall ?x = [] @ (''alias'', ''servers'') # []" by simp
  from s3 have s3': "function_sub_all [] ?x \<noteq> Inr []" by simp
  note w3 = alias_resolution [where s = ?x and pre = "[]" and rest = "[]" and k = "''servers''"
      and n = 3 and dc = "?dc" and paths = ex_paths and c = ex_ctx and merge = None,
      THEN conjunct2, THEN mp, OF f3']
  from mp [OF w3 [THEN conjunct2, THEN conjunct2, THEN conjunct1] conjI [OF e s3']]
  have c: "resolve (Suc (Suc 3)) ?dc (PStr ?x) ex_paths ex_ctx None = raise GenericException" .
  have f1: "function_findall (alias_call ''servers'') = [] @ (''alias'', ''servers'') # []"
    by code_simp
  have s1: "function_sub_all [] (alias_call ''servers'') = Inr []" by code_simp
  have g1: "get_key 3 ?dc (Some ''servers'') ex_paths ex_ctx None
              = return (PList [PStr ''a'', PStr ''b''])" by code_simp
  have n1: "no_markup (PList [PStr ''a'', PStr ''b''])" by (simp add: no_markup_def)
  note w1 = alias_resolution [where s = "alias_call ''servers''" and pre = "[]" and rest = "[]"
      and k = "''servers''" and n = 3 and dc = "?dc" and paths = ex_paths and c = ex_ctx
      and merge = None and v = "PList [PStr ''a'', PStr ''b'']", THEN conjunct2, THEN mp, OF f1]
  from mp [OF w1 [THEN conjunct1] conjI [OF e conjI [OF s1 conjI [OF g1 n1]]]]
  have a: "resolve (Suc (Suc 3)) ?dc (PStr (alias_call ''servers'')) ex_paths ex_ctx None
             = return (PList [PStr ''a'', PStr ''b''])" .
  have f2: "function_findall (alias_call ''nope'') = [] @ (''alias'', ''nope'') # []" by code_simp
  have s2: "function_sub_all [] (alias_call ''nope'') = Inr []" by code_simp
  have g2: "get_key 3 ?dc (Some ''nope'') ex_paths ex_ctx None = raise KeyError" by code_simp
  note w2 = alias_resolution [where s = "alias_call ''nope''" and pre = "[]" and rest = "[]"
      and k = "''nope''" and n = 3 and dc = "?dc" and paths = ex_paths and c = ex_ctx
      and merge = None, THEN conjunct2, THEN mp, OF f2]
  from mp [OF w2 [THEN conjunct2, THEN conjunct1] conjI [OF e conjI [OF s2 g2]]]
  have b: "resolve (Suc (Suc 3)) ?dc (PStr (alias_call ''nope'')) ex_paths ex_ctx None
             = raise InterpolationError" .
  have f4: "function_findall (''%{hiera('nope')}'' @ alias_call ''servers'')
              = [(''hiera'', ''nope'')] @ (''alias'', ''servers'') # []"
    by code_simp
  have ne: "[(''hiera'', ''nope'')] @ [] \<noteq> ([] :: (string \<times> string) list)" by simp
  have rc: "obind (resolve_calls (\<lambda>arg. get_key 3 ?dc (Some arg) ex_paths ex_ctx None) ex_ctx
                     (PStr (''%{hiera('nope')}'' @ alias_call ''servers'')) [(''hiera'', ''nope'')])
              (\<lambda>s'. raise GenericException) = (raise KeyError :: pyval outcome)"
    by code_simp
  note w4 = alias_resolution [where s = "''%{hiera('nope')}'' @ alias_call ''servers''"
      and pre = "[(''hiera'', ''nope'')]" and rest = "[]" and k = "''servers''"
      and n = 3 and dc = "?dc" and paths = ex_paths and c = ex_ctx
      and merge = None, THEN conjunct2, THEN mp, OF f4]
  from mp [OF w4 [THEN conjunct2, THEN conjunct2, THEN conjunct2] ne] rc
  have d: "resolve (Suc (Suc 3)) ?dc (PStr (''%{hiera('nope')}'' @ alias_call ''servers''))
             ex_paths ex_ctx None = raise KeyError" by simp
  from q sp p1 p0 f3 s3 c f1 s1 g1 n1 a f2 g2 b f4 d show ?thesis by (intro conjI)
qed

text \<open>
  An alias call after other text raises a plain \<^verbatim>\<open>Exception\<close>, not
  \<^verbatim>\<open>InterpolationError\<close>.
\<close>

theorem alias_error_kind_counterexample:
  "resolve 2 Map.empty (PStr ''x%{alias('b')}'') [] Map.empty None = raise GenericException"
  by code_simp

subsection \<open>Bare interpolation\<close>

lemma re_searchD:
  "re_search m s = Some (pre, g, rest) \<Longrightarrow> \<exists>t. s = pre @ t \<and> t \<noteq> [] \<and> m t = Some (g, rest)"
proof (induction s arbitrary: pre)
  case Nil
  then show ?case by simp
next
  case (Cons x s)
  show ?case
  proof (cases "m (x # s)")
    case None
    with Cons.prems obtain pre' where p: "re_search m s = Some (pre', g, rest)" "pre = x # pre'"
      by (auto split: prod.splits)
    from Cons.IH [OF p(1)] p(2) show ?thesis by auto
  next
    case (Some a)
    with Cons.prems show ?thesis by (auto split: prod.splits)
  qed
qed

lemma strip_prefix_Some: "strip_prefix p s = Some t \<Longrightarrow> s = p @ t"
  by (induction p s rule: strip_prefix.induct) (auto split: if_splits)

lemma length_skip_colons: "length (skip_colons s) \<le> length s"
  by (auto simp: skip_colons_def split: option.splits dest: strip_prefix_Some)

lemma interpolate_matchD:
  assumes "interpolate_match t = Some (g, rest)"
  shows "\<exists>u. t = CHR ''%'' # CHR ''{'' # u \<and> length rest < length u"
proof -
  from assms obtain s1 where s1: "strip_prefix ''%{'' t = Some s1"
    by (auto simp: interpolate_match_def split: bind_splits)
  then have t: "t = CHR ''%'' # CHR ''{'' # s1" using strip_prefix_Some by fastforce
  from assms s1 obtain q where
    dw: "dropWhile (\<lambda>c. c \<noteq> CHR ''}'') (skip_colons s1) = q # rest"
    by (auto simp: interpolate_match_def Let_def split: list.splits)
  have "length (q # rest) \<le> length (skip_colons s1)"
    unfolding dw [symmetric] by (rule length_dropWhile_le)
  then have "length rest < length s1" using length_skip_colons [of s1] by simp
  with t show ?thesis by simp
qed

lemma re_search_interpolate_length:
  "re_search interpolate_match s = Some (pre, g, rest) \<Longrightarrow> length rest < length s"
  using re_searchD [of interpolate_match s pre g rest] interpolate_matchD by fastforce

lemma re_search_interpolate_shape:
  "re_search interpolate_match s = Some (pre, g, rest) \<Longrightarrow> \<exists>u. s = pre @ CHR ''%'' # u"
  using re_searchD [of interpolate_match s pre g rest] interpolate_matchD by fastforce

lemma expand_template_plain: "CHR 0x5C \<notin> set r \<Longrightarrow> expand_template g r = Inr r"
  by (induction r) (auto simp: emit_def)

lemma interpolate_match_brace_free_prefix:
  assumes "CHR ''{'' \<notin> set (x # P)" and "t = [] \<or> hd t \<noteq> CHR ''{''"
  shows "interpolate_match (x # P @ t) = None"
proof (cases "x = CHR ''%''")
  case False
  then show ?thesis by (simp add: interpolate_match_def)
next
  case True
  have "P @ t = [] \<or> hd (P @ t) \<noteq> CHR ''{''"
    using assms by (cases P) auto
  then show ?thesis using True by (cases "P @ t") (auto simp: interpolate_match_def)
qed

lemma re_search_brace_free_prefix:
  assumes "CHR ''{'' \<notin> set P" and "t = [] \<or> hd t \<noteq> CHR ''{''"
  shows "re_search interpolate_match (P @ t)
           = map_option (\<lambda>(a, g, r). (P @ a, g, r)) (re_search interpolate_match t)"
  using assms(1)
proof (induction P)
  case Nil
  show ?case by (simp add: option.map_ident map_option_case split: option.splits)
next
  case (Cons x P)
  then have P: "CHR ''{'' \<notin> set P" by simp
  have "interpolate_match (x # P @ t) = None"
    using interpolate_match_brace_free_prefix [OF Cons.prems assms(2)] .
  then show ?case
    using Cons.IH [OF P] by (simp add: option.map_comp comp_def split_def)
qed

lemma template_check_plain: "CHR 0x5C \<notin> set r \<Longrightarrow> template_check n r = None"
  by (simp add: template_check_def expand_template_plain)

lemma interpolate_sub1_plain:
  assumes "CHR 0x5C \<notin> set r" and "re_search interpolate_match s = Some (pre, g, rest)"
  shows "interpolate_sub1 r s = Inr (pre @ r @ rest)"
  using assms
  by (simp add: interpolate_sub1_def re_sub1_def template_check_plain expand_template_plain)

lemma interpolate_findall_None:
  "re_search interpolate_match s = None \<Longrightarrow> interpolate_findall s = []"
  by (simp add: interpolate_findall_def)

lemma interpolate_findall_Some:
  "re_search interpolate_match s = Some (pre, g, rest) \<Longrightarrow>
   interpolate_findall s = g # interpolate_findall rest"
  using re_search_interpolate_length [of s pre g rest]
  by (simp add: interpolate_findall_def)

lemma interpolate_loop_spec:
  "outside_brace_free s \<Longrightarrow> \<forall>i\<in>set (interpolate_findall s). plain_value c i \<Longrightarrow>
   CHR ''{'' \<notin> set P \<Longrightarrow>
   interpolate_loop c (P @ s) (interpolate_findall s) = Inr (P @ interpolate_spec c s)"
proof (induction s arbitrary: P rule: length_induct)
  case (1 s)
  show ?case
  proof (cases "re_search interpolate_match s")
    case None
    then show ?thesis by (simp add: interpolate_findall_None)
  next
    case (Some a)
    then obtain pre g rest where m: "re_search interpolate_match s = Some (pre, g, rest)"
      by (cases a) auto
    have len: "length rest < length s" using re_search_interpolate_length [OF m] .
    have fa: "interpolate_findall s = g # interpolate_findall rest"
      using interpolate_findall_Some [OF m] .
    from "1.prems"(1) m len have pre: "CHR ''{'' \<notin> set pre" and obf: "outside_brace_free rest"
      by simp_all
    from "1.prems"(2) fa have pg: "plain_value c g"
      and prest: "\<forall>i\<in>set (interpolate_findall rest). plain_value c i" by simp_all
    from pg obtain r where r: "get_or_empty c g = PStr r" "CHR ''{'' \<notin> set r" "CHR 0x5C \<notin> set r"
      by (auto simp: plain_value_def split: pyval.splits)
    have iv: "interp_value c g = r" using r(1) by (simp add: interp_value_def)
    from re_search_interpolate_shape [OF m] obtain u where s: "s = pre @ CHR ''%'' # u" by blast
    have hd: "s = [] \<or> hd s \<noteq> CHR ''{''"
      using s pre by (cases pre) auto
    have search: "re_search interpolate_match (P @ s) = Some (P @ pre, g, rest)"
      using re_search_brace_free_prefix [OF "1.prems"(3) hd] m by simp
    have sub: "interpolate_sub1 r (P @ s) = Inr ((P @ pre @ r) @ rest)"
      using interpolate_sub1_plain [OF r(3) search] by simp
    have P': "CHR ''{'' \<notin> set (P @ pre @ r)" using "1.prems"(3) pre r(2) by simp
    have ih: "interpolate_loop c ((P @ pre @ r) @ rest) (interpolate_findall rest)
                = Inr ((P @ pre @ r) @ interpolate_spec c rest)"
      using "1.IH" len obf prest P' by blast
    have spec: "interpolate_spec c s = pre @ r @ interpolate_spec c rest"
      using m len iv by (subst interpolate_spec.simps) simp
    show ?thesis
      unfolding fa using r(1) sub ih spec by simp
  qed
qed

text \<open>
  Claim C9. When the text outside the bare occurrences has no opening brace and the
  value of every variable that occurs is absent, falsy, or a string without opening brace
  and without backslash, every bare occurrence is replaced, left to right, with the value
  of its variable, or with the empty string when the variable is absent; an absent
  variable is no error.
\<close>

theorem bare_interpolation:
  assumes "outside_brace_free s" and "\<forall>i\<in>set (interpolate_findall s). plain_value c i"
  shows "resolve_interpolates s c = Inr (interpolate_spec c s) \<and>
         (c i = None \<longrightarrow> interp_value c i = [])"
  using interpolate_loop_spec [OF assms, of "[]"]
  by (simp add: resolve_interpolates_def interp_value_def get_or_empty_def)

theorem bare_interpolation_witness:
  "outside_brace_free ''/srv/%{env}/%{::role}-%{nope}'' \<and>
   interpolate_findall ''/srv/%{env}/%{::role}-%{nope}'' = [''env'', ''role'', ''nope''] \<and>
   plain_value [''env'' \<mapsto> PStr ''prod'', ''role'' \<mapsto> PStr ''web''] ''env'' \<and>
   plain_value [''env'' \<mapsto> PStr ''prod'', ''role'' \<mapsto> PStr ''web''] ''role'' \<and>
   plain_value [''env'' \<mapsto> PStr ''prod'', ''role'' \<mapsto> PStr ''web''] ''nope'' \<and>
   [''env'' \<mapsto> PStr ''prod'', ''role'' \<mapsto> PStr ''web''] ''nope'' = None \<and>
   interp_value [''env'' \<mapsto> PStr ''prod'', ''role'' \<mapsto> PStr ''web''] ''nope'' = [] \<and>
   resolve_interpolates ''/srv/%{env}/%{::role}-%{nope}'' [''env'' \<mapsto> PStr ''prod'', ''role'' \<mapsto> PStr ''web'']
     = Inr ''/srv/prod/web-''"
proof -
  let ?c = "[''env'' \<mapsto> PStr ''prod'', ''role'' \<mapsto> PStr ''web'']"
  have h1: "outside_brace_free ''/srv/%{env}/%{::role}-%{nope}''" by code_simp
  have h2: "\<forall>i\<in>set (interpolate_findall ''/srv/%{env}/%{::role}-%{nope}''). plain_value ?c i"
    by code_simp
  have h3: "?c ''nope'' = None" by simp
  have sp: "interpolate_spec ?c ''/srv/%{env}/%{::role}-%{nope}'' = ''/srv/prod/web-''" by code_simp
  have fa: "interpolate_findall ''/srv/%{env}/%{::role}-%{nope}'' = [''env'', ''role'', ''nope'']"
    by code_simp
  have pv: "plain_value ?c ''env''" "plain_value ?c ''role''" "plain_value ?c ''nope''"
    using h2 unfolding fa by simp_all
  from bare_interpolation [OF h1 h2, of "''nope''"] h3 sp
  have r: "resolve_interpolates ''/srv/%{env}/%{::role}-%{nope}'' ?c = Inr ''/srv/prod/web-''"
    and iv: "interp_value ?c ''nope'' = []" by simp_all
  from h1 fa pv h3 iv r show ?thesis by (intro conjI)
qed

text \<open>
  A value that itself holds an occurrence takes the place of the next one: the value
  of \<^verbatim>\<open>b\<close> replaces the occurrence that came with the value of \<^verbatim>\<open>a\<close>, and the occurrence
  of \<^verbatim>\<open>b\<close> stays. A value that is a number is a \<^verbatim>\<open>TypeError\<close>.
\<close>

theorem bare_interpolation_counterexample:
  "interpolate_spec [''a'' \<mapsto> PStr ''%{zz}'', ''b'' \<mapsto> PStr ''B''] ''%{a}%{b}'' = ''%{zz}B'' \<and>
   resolve_interpolates ''%{a}%{b}'' [''a'' \<mapsto> PStr ''%{zz}'', ''b'' \<mapsto> PStr ''B''] = Inr ''B%{b}'' \<and>
   resolve_interpolates ''port %{p}'' [''p'' \<mapsto> PInt 8080] = Inl TypeError"
  by code_simp

subsection \<open>Context filtering and skipped candidates\<close>






















subsection \<open>The document cache\<close>

text \<open>
  Claim C7. \<^verbatim>\<open>load_file\<close> returns the path, and the parsed document is in the cache
  under that path. Loading a path that is in the cache returns without reading: the
  state, with its cache and its log of reads, is unchanged. Loading a path that is not in
  the cache, or with the cache ignored, stores the parsed document under the path after
  one read, and loading the path again does not read. When reading or parsing fails, the
  exception raised carries the path and the backend's exception, and the cache is
  unchanged. Inside a lookup call the failure is not passed over, be the candidate a
  single file or a file of a walked directory: the call raises it, whatever the default
  and \<^verbatim>\<open>throw\<close> are, no later candidate is tried, and what was loaded before stays in the
  cache.
\<close>

theorem load_file_cache_contract:
  "(cache st path = Some doc \<longrightarrow> load_file st path b False = (st, Inr path)) \<and>
   ((cache st path = None \<or> ig) \<and> read_load b path = Inr doc \<longrightarrow>
      load_file st path b ig
        = (st\<lparr>cache := (cache st)(path \<mapsto> doc), reads := reads st @ [path]\<rparr>, Inr path) \<and>
      load_file (fst (load_file st path b ig)) path b False
        = (fst (load_file st path b ig), Inr path)) \<and>
   ((cache st path = None \<or> ig) \<and> read_load b path = Inl e \<longrightarrow>
      load_file st path b ig = (st\<lparr>reads := reads st @ [path]\<rparr>, Inl (LoadFailure path e)) \<and>
      cache (fst (load_file st path b ig)) = cache st) \<and>
   (new_context = filter_truthy (heap st (context_ref h) ++ c ++ kw) \<and>
    backends h = bs1 @ b # bs2 \<and>
    paths_backends fs h new_context bs1 [] st = (st1, Inr paths1) \<and>
    hierarchy h = lv1 @ p # lv2 \<and>
    paths_hierarchy fs h new_context b lv1 paths1 st1 = (st2, Inr paths2) \<and>
    render_path h new_context b p = Inr stem \<longrightarrow>
      (\<not> isdir fs stem \<and> exists_path fs (stem @ ''.'' @ NAME b) \<and>
       cache st2 (stem @ ''.'' @ NAME b) = None \<and> read_load b (stem @ ''.'' @ NAME b) = Inl e \<longrightarrow>
         get fs n h st key dflt merge md throw c kw =
           (st2\<lparr>reads := reads st2 @ [stem @ ''.'' @ NAME b]\<rparr>,
            raise (LoadFailure (stem @ ''.'' @ NAME b) e))) \<and>
      (isdir fs stem \<and> walk fs stem = fl1 @ f # fl2 \<and>
       load_directory b [] fl1 st2 = (st3, Inr loaded) \<and>
       cache st3 f = None \<and> read_load b f = Inl e \<longrightarrow>
         get fs n h st key dflt merge md throw c kw =
           (st3\<lparr>reads := reads st3 @ [f]\<rparr>, raise (LoadFailure f e))))"
proof (intro conjI impI)
  assume "cache st path = Some doc"
  then show "load_file st path b False = (st, Inr path)" by (rule load_file_cached)
next
  assume a: "(cache st path = None \<or> ig) \<and> read_load b path = Inr doc"
  then show s: "load_file st path b ig
        = (st\<lparr>cache := (cache st)(path \<mapsto> doc), reads := reads st @ [path]\<rparr>, Inr path)"
    using load_file_stores [of st path ig b doc] by simp
  show "load_file (fst (load_file st path b ig)) path b False
        = (fst (load_file st path b ig), Inr path)"
    unfolding s by (simp add: load_file_def)
next
  assume a: "(cache st path = None \<or> ig) \<and> read_load b path = Inl e"
  then show "load_file st path b ig = (st\<lparr>reads := reads st @ [path]\<rparr>, Inl (LoadFailure path e))"
    using load_file_fails [of st path ig b e] by simp
  from a show "cache (fst (load_file st path b ig)) = cache st"
    using load_file_fails [of st path ig b e] by simp
next
  assume "new_context = filter_truthy (heap st (context_ref h) ++ c ++ kw) \<and>
    backends h = bs1 @ b # bs2 \<and>
    paths_backends fs h new_context bs1 [] st = (st1, Inr paths1) \<and>
    hierarchy h = lv1 @ p # lv2 \<and>
    paths_hierarchy fs h new_context b lv1 paths1 st1 = (st2, Inr paths2) \<and>
    render_path h new_context b p = Inr stem"
    and "\<not> isdir fs stem \<and> exists_path fs (stem @ ''.'' @ NAME b) \<and>
       cache st2 (stem @ ''.'' @ NAME b) = None \<and> read_load b (stem @ ''.'' @ NAME b) = Inl e"
  then show "get fs n h st key dflt merge md throw c kw =
        (st2\<lparr>reads := reads st2 @ [stem @ ''.'' @ NAME b]\<rparr>,
         raise (LoadFailure (stem @ ''.'' @ NAME b) e))"
    by (intro get_aborts_on_load_failure) auto
next
  assume "new_context = filter_truthy (heap st (context_ref h) ++ c ++ kw) \<and>
    backends h = bs1 @ b # bs2 \<and>
    paths_backends fs h new_context bs1 [] st = (st1, Inr paths1) \<and>
    hierarchy h = lv1 @ p # lv2 \<and>
    paths_hierarchy fs h new_context b lv1 paths1 st1 = (st2, Inr paths2) \<and>
    render_path h new_context b p = Inr stem"
    and "isdir fs stem \<and> walk fs stem = fl1 @ f # fl2 \<and>
       load_directory b [] fl1 st2 = (st3, Inr loaded) \<and>
       cache st3 f = None \<and> read_load b f = Inl e"
  then show "get fs n h st key dflt merge md throw c kw =
           (st3\<lparr>reads := reads st3 @ [f]\<rparr>, raise (LoadFailure f e))"
    by (intro get_aborts_on_directory_failure) auto
qed

theorem load_file_cache_contract_witness:
  "cache ex_loaded ''/etc/hiera/prod/web.yaml'' = Some (PDict ex_web_items) \<and>
   load_file ex_loaded ''/etc/hiera/prod/web.yaml'' ex_backend False
     = (ex_loaded, Inr ''/etc/hiera/prod/web.yaml'') \<and>
   cache ex_state ''/etc/hiera/prod/common.yaml'' = None \<and>
   read_load ex_backend ''/etc/hiera/prod/common.yaml'' = Inr (PDict ex_common_items) \<and>
   load_file ex_state ''/etc/hiera/prod/common.yaml'' ex_backend False
     = (ex_state\<lparr>cache := (cache ex_state)(''/etc/hiera/prod/common.yaml'' \<mapsto> PDict ex_common_items),
                  reads := reads ex_state @ [''/etc/hiera/prod/common.yaml'']\<rparr>,
        Inr ''/etc/hiera/prod/common.yaml'') \<and>
   load_file (fst (load_file ex_state ''/etc/hiera/prod/common.yaml'' ex_backend False))
       ''/etc/hiera/prod/common.yaml'' ex_backend False
     = (fst (load_file ex_state ''/etc/hiera/prod/common.yaml'' ex_backend False),
        Inr ''/etc/hiera/prod/common.yaml'') \<and>
   cache ex_state ''/etc/hiera/prod/broken.yaml'' = None \<and>
   read_load ex_backend ''/etc/hiera/prod/broken.yaml'' = Inl ValueError \<and>
   load_file ex_state ''/etc/hiera/prod/broken.yaml'' ex_backend False
     = (ex_state\<lparr>reads := reads ex_state @ [''/etc/hiera/prod/broken.yaml'']\<rparr>,
        Inl (LoadFailure ''/etc/hiera/prod/broken.yaml'' ValueError)) \<and>
   cache (fst (load_file ex_state ''/etc/hiera/prod/broken.yaml'' ex_backend False)) = cache ex_state \<and>
   snd (get ex_fs 3 ex_hiera_broken ex_state (Some ''name'') (PInt 42) None False False Map.empty Map.empty)
     = raise (LoadFailure (''/etc/hiera/prod/broken'' @ ''.'' @ NAME ex_backend) ValueError) \<and>
   isdir ex_fs_dir ''/etc/hiera/prod/conf.d'' \<and>
   walk ex_fs_dir ''/etc/hiera/prod/conf.d''
     = [''/etc/hiera/prod/conf.d/a.yaml''] @ ''/etc/hiera/prod/conf.d/b.yaml'' # [] \<and>
   read_load ex_backend_dir ''/etc/hiera/prod/conf.d/b.yaml'' = Inl ValueError \<and>
   snd (get ex_fs_dir 3 ex_hiera_dir ex_state (Some ''name'') (PInt 42) None False False Map.empty Map.empty)
     = raise (LoadFailure ''/etc/hiera/prod/conf.d/b.yaml'' ValueError)"
proof -
  let ?c = "filter_truthy (heap ex_state (context_ref ex_hiera_broken) ++ Map.empty ++ Map.empty)"
  let ?st2 = "fst (paths_hierarchy ex_fs ex_hiera_broken ?c ex_backend [''common''] [] ex_state)"
  have c1: "cache ex_loaded ''/etc/hiera/prod/web.yaml'' = Some (PDict ex_web_items)" by code_simp
  have c2: "cache ex_state ''/etc/hiera/prod/broken.yaml'' = None" by code_simp
  have rd: "read_load ex_backend ''/etc/hiera/prod/broken.yaml'' = Inl ValueError" by code_simp
  have c3: "cache ex_state ''/etc/hiera/prod/common.yaml'' = None" by code_simp
  have rc: "read_load ex_backend ''/etc/hiera/prod/common.yaml'' = Inr (PDict ex_common_items)"
    by code_simp
  have nc: "?c = filter_truthy (heap ex_state (context_ref ex_hiera_broken) ++ Map.empty ++ Map.empty)"
    by simp
  have bs: "backends ex_hiera_broken = [] @ ex_backend # []"
    by (simp add: ex_hiera_broken_def ex_hiera_def)
  have pb: "paths_backends ex_fs ex_hiera_broken ?c [] [] ex_state = (ex_state, Inr [])" by simp
  have lv: "hierarchy ex_hiera_broken = [''common''] @ ''broken'' # []"
    by (simp add: ex_hiera_broken_def)
  have "snd (paths_hierarchy ex_fs ex_hiera_broken ?c ex_backend [''common''] [] ex_state)
          = Inr [''/etc/hiera/prod/common.yaml'']" by code_simp
  then have ph: "paths_hierarchy ex_fs ex_hiera_broken ?c ex_backend [''common''] [] ex_state
          = (?st2, Inr [''/etc/hiera/prod/common.yaml''])" by (simp add: prod_eq_iff)
  have rp: "render_path ex_hiera_broken ?c ex_backend ''broken'' = Inr ''/etc/hiera/prod/broken''"
    by code_simp
  have nd: "\<not> isdir ex_fs ''/etc/hiera/prod/broken''" by code_simp
  have ex: "exists_path ex_fs (''/etc/hiera/prod/broken'' @ ''.'' @ NAME ex_backend)" by code_simp
  have miss: "cache ?st2 (''/etc/hiera/prod/broken'' @ ''.'' @ NAME ex_backend) = None" by code_simp
  have fail: "read_load ex_backend (''/etc/hiera/prod/broken'' @ ''.'' @ NAME ex_backend) = Inl ValueError"
    by code_simp
  note w1 = load_file_cache_contract [where st = ex_loaded and path = "''/etc/hiera/prod/web.yaml''"
      and doc = "PDict ex_web_items" and b = ex_backend]
  note w2 = load_file_cache_contract [where st = ex_state and path = "''/etc/hiera/prod/broken.yaml''"
      and b = ex_backend and ig = False and e = ValueError]
  note w3 = load_file_cache_contract [where st = ex_state and h = ex_hiera_broken and new_context = ?c
      and c = Map.empty and kw = Map.empty and ?bs1.0 = "[]" and b = ex_backend and ?bs2.0 = "[]"
      and fs = ex_fs and ?st1.0 = ex_state and ?paths1.0 = "[]" and ?lv1.0 = "[''common'']"
      and p = "''broken''" and ?lv2.0 = "[]" and ?st2.0 = ?st2
      and ?paths2.0 = "[''/etc/hiera/prod/common.yaml'']" and stem = "''/etc/hiera/prod/broken''"
      and e = ValueError and n = 3 and key = "Some ''name''" and dflt = "PInt 42" and merge = None
      and md = False and throw = False]
  note w4 = load_file_cache_contract [where st = ex_state and path = "''/etc/hiera/prod/common.yaml''"
      and b = ex_backend and ig = False and doc = "PDict ex_common_items"]
  from mp [OF w1 [THEN conjunct1] c1]
  have a: "load_file ex_loaded ''/etc/hiera/prod/web.yaml'' ex_backend False
     = (ex_loaded, Inr ''/etc/hiera/prod/web.yaml'')" .
  from mp [OF w4 [THEN conjunct2, THEN conjunct1] conjI [OF disjI1 [OF c3] rc]]
  have s1: "load_file ex_state ''/etc/hiera/prod/common.yaml'' ex_backend False
     = (ex_state\<lparr>cache := (cache ex_state)(''/etc/hiera/prod/common.yaml'' \<mapsto> PDict ex_common_items),
                  reads := reads ex_state @ [''/etc/hiera/prod/common.yaml'']\<rparr>,
        Inr ''/etc/hiera/prod/common.yaml'')"
    and s2: "load_file (fst (load_file ex_state ''/etc/hiera/prod/common.yaml'' ex_backend False))
       ''/etc/hiera/prod/common.yaml'' ex_backend False
     = (fst (load_file ex_state ''/etc/hiera/prod/common.yaml'' ex_backend False),
        Inr ''/etc/hiera/prod/common.yaml'')" by blast+
  from mp [OF w2 [THEN conjunct2, THEN conjunct2, THEN conjunct1] conjI [OF disjI1 [OF c2] rd]]
  have b: "load_file ex_state ''/etc/hiera/prod/broken.yaml'' ex_backend False
     = (ex_state\<lparr>reads := reads ex_state @ [''/etc/hiera/prod/broken.yaml'']\<rparr>,
        Inl (LoadFailure ''/etc/hiera/prod/broken.yaml'' ValueError))"
    and c: "cache (fst (load_file ex_state ''/etc/hiera/prod/broken.yaml'' ex_backend False))
     = cache ex_state" by blast+
  from w3 [THEN conjunct2, THEN conjunct2, THEN conjunct2] nc bs pb lv ph rp nd ex miss fail
  have "get ex_fs 3 ex_hiera_broken ex_state (Some ''name'') (PInt 42) None False False Map.empty Map.empty
     = (?st2\<lparr>reads := reads ?st2 @ [''/etc/hiera/prod/broken'' @ ''.'' @ NAME ex_backend]\<rparr>,
        raise (LoadFailure (''/etc/hiera/prod/broken'' @ ''.'' @ NAME ex_backend) ValueError))"
    by blast
  then have d: "snd (get ex_fs 3 ex_hiera_broken ex_state (Some ''name'') (PInt 42) None False False
      Map.empty Map.empty)
     = raise (LoadFailure (''/etc/hiera/prod/broken'' @ ''.'' @ NAME ex_backend) ValueError)"
    by simp
  let ?cd = "filter_truthy (heap ex_state (context_ref ex_hiera_dir) ++ Map.empty ++ Map.empty)"
  let ?sd2 = "fst (paths_hierarchy ex_fs_dir ex_hiera_dir ?cd ex_backend_dir [''common''] [] ex_state)"
  let ?sd3 = "fst (load_directory ex_backend_dir [] [''/etc/hiera/prod/conf.d/a.yaml''] ?sd2)"
  have ncd: "?cd = filter_truthy (heap ex_state (context_ref ex_hiera_dir) ++ Map.empty ++ Map.empty)"
    by simp
  have bsd: "backends ex_hiera_dir = [] @ ex_backend_dir # []"
    by (simp add: ex_hiera_dir_def)
  have pbd: "paths_backends ex_fs_dir ex_hiera_dir ?cd [] [] ex_state = (ex_state, Inr [])" by simp
  have lvd: "hierarchy ex_hiera_dir = [''common''] @ ''conf.d'' # []"
    by (simp add: ex_hiera_dir_def)
  have "snd (paths_hierarchy ex_fs_dir ex_hiera_dir ?cd ex_backend_dir [''common''] [] ex_state)
          = Inr [''/etc/hiera/prod/common.yaml'']" by code_simp
  then have phd: "paths_hierarchy ex_fs_dir ex_hiera_dir ?cd ex_backend_dir [''common''] [] ex_state
          = (?sd2, Inr [''/etc/hiera/prod/common.yaml''])" by (simp add: prod_eq_iff)
  have rpd: "render_path ex_hiera_dir ?cd ex_backend_dir ''conf.d'' = Inr ''/etc/hiera/prod/conf.d''"
    by code_simp
  have isd: "isdir ex_fs_dir ''/etc/hiera/prod/conf.d''" by code_simp
  have wk: "walk ex_fs_dir ''/etc/hiera/prod/conf.d''
     = [''/etc/hiera/prod/conf.d/a.yaml''] @ ''/etc/hiera/prod/conf.d/b.yaml'' # []" by code_simp
  have "snd (load_directory ex_backend_dir [] [''/etc/hiera/prod/conf.d/a.yaml''] ?sd2)
          = Inr [''/etc/hiera/prod/conf.d/a.yaml'']" by code_simp
  then have ldd: "load_directory ex_backend_dir [] [''/etc/hiera/prod/conf.d/a.yaml''] ?sd2
          = (?sd3, Inr [''/etc/hiera/prod/conf.d/a.yaml''])" by (simp add: prod_eq_iff)
  have missd: "cache ?sd3 ''/etc/hiera/prod/conf.d/b.yaml'' = None" by code_simp
  have faild: "read_load ex_backend_dir ''/etc/hiera/prod/conf.d/b.yaml'' = Inl ValueError"
    by code_simp
  note w5 = load_file_cache_contract [where st = ex_state and h = ex_hiera_dir and new_context = ?cd
      and c = Map.empty and kw = Map.empty and ?bs1.0 = "[]" and b = ex_backend_dir and ?bs2.0 = "[]"
      and fs = ex_fs_dir and ?st1.0 = ex_state and ?paths1.0 = "[]" and ?lv1.0 = "[''common'']"
      and p = "''conf.d''" and ?lv2.0 = "[]" and ?st2.0 = ?sd2
      and ?paths2.0 = "[''/etc/hiera/prod/common.yaml'']" and stem = "''/etc/hiera/prod/conf.d''"
      and ?fl1.0 = "[''/etc/hiera/prod/conf.d/a.yaml'']" and f = "''/etc/hiera/prod/conf.d/b.yaml''"
      and ?fl2.0 = "[]" and ?st3.0 = ?sd3 and loaded = "[''/etc/hiera/prod/conf.d/a.yaml'']"
      and e = ValueError and n = 3 and key = "Some ''name''" and dflt = "PInt 42" and merge = None
      and md = False and throw = False]
  from w5 [THEN conjunct2, THEN conjunct2, THEN conjunct2] ncd bsd pbd lvd phd rpd isd wk ldd missd faild
  have "get ex_fs_dir 3 ex_hiera_dir ex_state (Some ''name'') (PInt 42) None False False Map.empty Map.empty
     = (?sd3\<lparr>reads := reads ?sd3 @ [''/etc/hiera/prod/conf.d/b.yaml'']\<rparr>,
        raise (LoadFailure ''/etc/hiera/prod/conf.d/b.yaml'' ValueError))"
    by blast
  then have e: "snd (get ex_fs_dir 3 ex_hiera_dir ex_state (Some ''name'') (PInt 42) None False False
      Map.empty Map.empty) = raise (LoadFailure ''/etc/hiera/prod/conf.d/b.yaml'' ValueError)"
    by simp
  from c1 a c3 rc s1 s2 c2 rd b c d isd wk faild e show ?thesis by (intro conjI)
qed

text \<open>
  The load of a path that is in the cache returns the path, not the document.
\<close>

theorem cached_load_returns_path_counterexample:
  "cache ex_loaded ''/etc/hiera/prod/web.yaml'' = Some (PDict ex_web_items) \<and>
   snd (load_file ex_loaded ''/etc/hiera/prod/web.yaml'' ex_backend False)
     = Inr ''/etc/hiera/prod/web.yaml''"
  by code_simp

subsection \<open>The bound view\<close>

text \<open>
  Claim C8. In the example, the view is bound to the role \<^verbatim>\<open>web\<close> and the calls
  override the role with \<^verbatim>\<open>db\<close>. The view's \<^verbatim>\<open>get\<close> looks the key up for \<^verbatim>\<open>db\<close> and
  does not find it; the view's \<^verbatim>\<open>has\<close> lets the bound role win, looks the key up for
  \<^verbatim>\<open>web\<close>, and answers true, where the engine's own \<^verbatim>\<open>has\<close> for \<^verbatim>\<open>db\<close> answers false.
\<close>

theorem scoped_has_precedence:
  "snd (ScopedHiera_has ex_fs 3 ex_scoped ex_state (Some ''servers'') [''role'' \<mapsto> PStr ''db''])
     = return True \<and>
   snd (ScopedHiera_get ex_fs 3 ex_scoped ex_state (Some ''servers'') PNone None False True Map.empty
          [''role'' \<mapsto> PStr ''db'']) = raise KeyError \<and>
   snd (has ex_fs 3 ex_hiera ex_state (Some ''servers'') [''role'' \<mapsto> PStr ''db'']) = return False \<and>
   snd (has ex_fs 3 ex_hiera ex_state (Some ''servers'') [''role'' \<mapsto> PStr ''web'']) = return True"
  by code_simp

subsection \<open>Context dictionaries kept by reference\<close>

text \<open>
  Claim C10. The constructor and \<^verbatim>\<open>scoped\<close> keep the caller's dictionary by
  reference and update it in place with the keyword overrides: after the call, whether
  or not the construction succeeds, the caller's dictionary holds every keyword entry,
  and the engine built refers to that dictionary. When the context is omitted, the one
  dictionary of the default argument is updated, so the entries of one construction are
  still there in the next.
\<close>

theorem caller_context_updated_in_place:
  "heap (fst (Hiera_init fs n classes base bpath (Some d) kwargs st)) d = heap st d ++ kwargs \<and>
   (kwargs k = Some v \<longrightarrow>
      heap (fst (Hiera_init fs n classes base bpath (Some d) kwargs st)) d k = Some v) \<and>
   (Hiera_init fs n classes base bpath (Some d) kwargs st = (st', Some (Inr h)) \<longrightarrow>
      context_ref h = d) \<and>
   heap (fst (scoped h0 st (Some d) kwargs)) d = heap st d ++ kwargs \<and>
   scoped_context_ref (snd (scoped h0 st (Some d) kwargs)) = d \<and>
   heap (fst (Hiera_init fs2 n2 classes2 base2 bpath2 None kw2
               (fst (Hiera_init fs n classes base bpath None kwargs st)))) init_default_ref
     = heap st init_default_ref ++ kwargs ++ kw2 \<and>
   heap (fst (scoped h2 (fst (scoped h0 st None kwargs)) None kw2)) scoped_default_ref
     = heap st scoped_default_ref ++ kwargs ++ kw2"
proof -
  have init: "\<And>fs n classes base bpath r kwargs st.
      heap (fst (Hiera_init fs n classes base bpath r kwargs st))
        = (heap st)((case r of None \<Rightarrow> init_default_ref | Some c \<Rightarrow> c) :=
             heap st (case r of None \<Rightarrow> init_default_ref | Some c \<Rightarrow> c) ++ kwargs)"
    by (simp add: Hiera_init_def Let_def load_heap dict_update_def)
  have ref: "Hiera_init fs n classes base bpath (Some d) kwargs st = (st', Some (Inr h)) \<longrightarrow>
      context_ref h = d"
    by (auto simp: Hiera_init_def Let_def dest: load_context_ref)
  show ?thesis
    using ref by (simp add: init scoped_def Let_def dict_update_def)
qed

theorem caller_context_updated_in_place_witness:
  "[''env'' \<mapsto> PStr ''prod''] ''env'' = Some (PStr ''prod'') \<and>
   heap (fst (Hiera_init ex_fs 1 [ex_class] ex_base ''/etc/hiera'' (Some 5)
                [''env'' \<mapsto> PStr ''prod''] ex_state)) 5 ''env'' = Some (PStr ''prod'') \<and>
   heap ex_state 5 ''env'' = None \<and>
   snd (Hiera_init ex_fs 1 [ex_class] ex_base ''/etc/hiera'' (Some 5)
          [''env'' \<mapsto> PStr ''prod''] ex_state) = Some (Inr ex_built) \<and>
   context_ref ex_built = 5 \<and>
   heap (fst (Hiera_init ex_fs 1 [ex_class] ex_base ''/etc/hiera'' None [''role'' \<mapsto> PStr ''db'']
               (fst (Hiera_init ex_fs 1 [ex_class] ex_base ''/etc/hiera'' None
                       [''env'' \<mapsto> PStr ''prod''] ex_state)))) init_default_ref ''env''
     = Some (PStr ''prod'')"
proof -
  let ?kw = "[''env'' \<mapsto> PStr ''prod'']"
  let ?init = "Hiera_init ex_fs 1 [ex_class] ex_base ''/etc/hiera'' (Some 5) ?kw ex_state"
  have k: "?kw ''env'' = Some (PStr ''prod'')" by simp
  have before: "heap ex_state 5 ''env'' = None" by code_simp
  have "case snd ?init of Some (Inr h) \<Rightarrow> True | _ \<Rightarrow> False" by code_simp
  then have built: "snd ?init = Some (Inr ex_built)"
    unfolding ex_built_def by (auto split: option.splits sum.splits)
  then have eq: "?init = (fst ?init, Some (Inr ex_built))" by (simp add: prod_eq_iff)
  note w = caller_context_updated_in_place [where fs = ex_fs and n = 1 and classes = "[ex_class]"
      and base = ex_base and bpath = "''/etc/hiera''" and d = 5 and kwargs = ?kw and st = ex_state
      and k = "''env''" and v = "PStr ''prod''" and st' = "fst ?init" and h = ex_built
      and ?fs2.0 = ex_fs and ?n2.0 = 1 and ?classes2.0 = "[ex_class]" and ?base2.0 = ex_base
      and ?bpath2.0 = "''/etc/hiera''" and ?kw2.0 = "[''role'' \<mapsto> PStr ''db'']"]
  from mp [OF w [THEN conjunct2, THEN conjunct1] k]
  have a: "heap (fst ?init) 5 ''env'' = Some (PStr ''prod'')" .
  from mp [OF w [THEN conjunct2, THEN conjunct2, THEN conjunct1] eq]
  have b: "context_ref ex_built = 5" .
  from w [THEN conjunct2, THEN conjunct2, THEN conjunct2, THEN conjunct2, THEN conjunct2, THEN conjunct1]
  have "heap (fst (Hiera_init ex_fs 1 [ex_class] ex_base ''/etc/hiera'' None [''role'' \<mapsto> PStr ''db'']
               (fst (Hiera_init ex_fs 1 [ex_class] ex_base ''/etc/hiera'' None ?kw ex_state))))
          init_default_ref = heap ex_state init_default_ref ++ ?kw ++ [''role'' \<mapsto> PStr ''db'']" .
  then have c: "heap (fst (Hiera_init ex_fs 1 [ex_class] ex_base ''/etc/hiera'' None [''role'' \<mapsto> PStr ''db'']
               (fst (Hiera_init ex_fs 1 [ex_class] ex_base ''/etc/hiera'' None ?kw ex_state))))
          init_default_ref ''env'' = Some (PStr ''prod'')"
    by simp
  from k before built a b c show ?thesis by blast
qed

end
